theory Spec2Isabelle
  imports Complex_Main "HOL-Library.Word"
begin

unbundle bit_operations_syntax

section \<open>The MPEG program stream demuxer (modules/demux/mpeg/ps.c)\<close>

text \<open>
  A shallow embedding of \<^verbatim>\<open>ps.c\<close>: the resynchroniser \<^verbatim>\<open>ps_pkt_resynch\<close>, the
  packet reader \<^verbatim>\<open>ps_pkt_read\<close>, the probing demuxer \<^verbatim>\<open>Demux2\<close>, the length
  estimation \<^verbatim>\<open>FindLength\<close>, \<^verbatim>\<open>NotifyDiscontinuity\<close>, the demuxer \<^verbatim>\<open>Demux\<close> and
  \<^verbatim>\<open>Control\<close>. State is passed explicitly: a function takes the demuxer
  (\<^verbatim>\<open>demux_t\<close>: the byte source, the output sink and \<^verbatim>\<open>demux_sys_t\<close>) and returns
  its return code with the updated demuxer. Timestamps (\<^verbatim>\<open>int64_t\<close>, \<^verbatim>\<open>mtime_t\<close>)
  and C \<^verbatim>\<open>int\<close>s are integers: the values the code computes with are
  microsecond time stamps, byte counts and a counter in \<open>[0, 500]\<close>, all far from
  the 64-bit bounds. Bytes are 8-bit words, block flags are 32-bit words.
\<close>

subsection \<open>Data\<close>

type_synonym u8 = "8 word"

text \<open>
  Constants of VLC's public headers, which the file includes but which are not
  among its sources: the return codes of \<^verbatim>\<open>vlc_common.h\<close> and \<^verbatim>\<open>vlc_demux.h\<close>, the
  time stamp constants of \<^verbatim>\<open>vlc_config.h\<close>, the discontinuity flag of
  \<^verbatim>\<open>vlc_block.h\<close>, and the stream ids of \<^verbatim>\<open>ps.h\<close> (listed in the wire format of
  the specification: end 0xB9, pack header 0xBA, system header 0xBB, map 0xBC,
  private stream 1 0xBD).
\<close>

definition VLC_SUCCESS :: int where "VLC_SUCCESS = 0"
definition VLC_EGENERIC :: int where "VLC_EGENERIC = - 1"
definition VLC_DEMUXER_EOF :: int where "VLC_DEMUXER_EOF = 0"
definition VLC_DEMUXER_EGENERIC :: int where "VLC_DEMUXER_EGENERIC = - 1"
definition VLC_DEMUXER_SUCCESS :: int where "VLC_DEMUXER_SUCCESS = 1"
definition VLC_TS_INVALID :: int where "VLC_TS_INVALID = 0"
definition VLC_TS_0 :: int where "VLC_TS_0 = 1"
definition CLOCK_FREQ :: int where "CLOCK_FREQ = 1000000"
definition BLOCK_FLAG_DISCONTINUITY :: "32 word" where "BLOCK_FLAG_DISCONTINUITY = 1"
definition PS_STREAM_ID_END_STREAM :: u8 where "PS_STREAM_ID_END_STREAM = 0xB9"
definition PS_STREAM_ID_PACK_HEADER :: u8 where "PS_STREAM_ID_PACK_HEADER = 0xBA"
definition PS_STREAM_ID_SYSTEM_HEADER :: u8 where "PS_STREAM_ID_SYSTEM_HEADER = 0xBB"
definition PS_STREAM_ID_MAP :: u8 where "PS_STREAM_ID_MAP = 0xBC"
definition PS_STREAM_ID_PRIVATE_STREAM1 :: u8 where "PS_STREAM_ID_PRIVATE_STREAM1 = 0xBD"

text \<open>
  \<^verbatim>\<open>es_format_t\<close> as far as \<^verbatim>\<open>ps.c\<close> reads it: the category and the codec. Of the
  codecs only three are named in the file; every other fourcc is \<open>VLC_CODEC_other\<close>.
\<close>

datatype es_format_category_e = UNKNOWN_ES | VIDEO_ES | AUDIO_ES | SPU_ES

datatype vlc_fourcc_t =
  VLC_CODEC_OGT | VLC_CODEC_CVD | VLC_CODEC_TELETEXT | VLC_CODEC_other nat

record es_format_t =
  i_cat :: es_format_category_e
  i_codec :: vlc_fourcc_t

text \<open>A sink handle (\<^verbatim>\<open>es_out_id_t *\<close>); the null pointer is \<open>None\<close>.\<close>

type_synonym es_out_id_t = nat

text \<open>\<^verbatim>\<open>block_t\<close>: the bytes (\<^verbatim>\<open>i_buffer\<close> is their number), the time stamp, the flags.\<close>

record block_t =
  p_buffer :: "u8 list"
  i_pts :: int
  i_flags :: "32 word"

text \<open>\<^verbatim>\<open>ps_track_t\<close> (declared in \<^verbatim>\<open>ps.h\<close>), with the fields \<^verbatim>\<open>ps.c\<close> uses.\<close>

record ps_track_t =
  b_seen :: bool
  i_skip :: int
  i_id :: int
  i_next_block_flags :: "32 word"
  es :: "es_out_id_t option"
  fmt :: es_format_t
  i_first_pts :: int
  i_last_pts :: int

text \<open>
  Modelled from the spec: \<^verbatim>\<open>ps_psm_t\<close> (declared in \<^verbatim>\<open>ps.h\<close>) is a mapping from
  stream id to codec descriptor, plus a version counter.
\<close>

record ps_psm_t =
  i_version :: int
  psm_es :: "(int \<times> es_format_t) list"

text \<open>
  \<^verbatim>\<open>demux_sys_t\<close>. The array \<^verbatim>\<open>tk[PS_TK_COUNT]\<close> is a function from the index to the
  track; the loops of the file visit the indices below \<^verbatim>\<open>PS_TK_COUNT\<close>.
\<close>

record demux_sys_t =
  psm :: ps_psm_t
  tk :: "nat \<Rightarrow> ps_track_t"
  i_scr :: int
  i_last_scr :: int
  i_mux_rate :: int
  i_length :: int
  i_time_track :: int
  i_current_pts :: int
  i_aob_mlp_count :: int
  b_lost_sync :: bool
  b_have_pack :: bool
  b_bad_scr :: bool
  b_seekable :: bool
  b_cdxa :: bool

subsection \<open>The byte source\<close>

text \<open>
  Modelled from the spec: the byte source (\<^verbatim>\<open>stream_t\<close> of VLC's core) offers
  peek(n) (non-consuming), read(n) (consuming, returns the actual count), tell()
  and size(). It is a list of bytes with a read position.
\<close>

record stream_t =
  s_data :: "u8 list"
  s_pos :: nat

definition vlc_stream_Peek :: "stream_t \<Rightarrow> nat \<Rightarrow> u8 list" where
  "vlc_stream_Peek st n = take n (drop (s_pos st) (s_data st))"

definition vlc_stream_Read :: "stream_t \<Rightarrow> nat \<Rightarrow> nat \<times> stream_t" where
  "vlc_stream_Read st n =
     (let k = length (vlc_stream_Peek st n) in (k, st\<lparr>s_pos := s_pos st + k\<rparr>))"

definition vlc_stream_Tell :: "stream_t \<Rightarrow> int" where
  "vlc_stream_Tell st = int (s_pos st)"

definition stream_Size :: "stream_t \<Rightarrow> int" where
  "stream_Size st = int (length (s_data st))"

text \<open>
  Modelled from the spec: \<^verbatim>\<open>vlc_stream_Block\<close> reads up to \<open>n\<close> bytes into a fresh
  block (time stamp invalid, no flags); it returns the null pointer when nothing
  could be read or the size is not a valid \<^verbatim>\<open>size_t\<close> (a negative \<^verbatim>\<open>int\<close>).
\<close>

definition vlc_stream_Block :: "stream_t \<Rightarrow> int \<Rightarrow> block_t option \<times> stream_t" where
  "vlc_stream_Block st n =
     (if n < 0 then (None, st)
      else let b = vlc_stream_Peek st (nat n) in
        if b = [] then (None, st)
        else (Some \<lparr>p_buffer = b, i_pts = VLC_TS_INVALID, i_flags = 0\<rparr>,
              st\<lparr>s_pos := s_pos st + length b\<rparr>))"

subsection \<open>ps_pkt_resynch\<close>

text \<open>
  The test \<^verbatim>\<open>p[0] == 0 && p[1] == 0 && p[2] == 1 && p[3] >= PS_STREAM_ID_END_STREAM\<close>
  at offset \<open>i\<close> of a buffer that holds at least \<open>i + 4\<close> bytes.
\<close>

definition start_code_at :: "u8 list \<Rightarrow> nat \<Rightarrow> bool" where
  "start_code_at p i \<longleftrightarrow>
     p ! i = 0 \<and> p ! (i + 1) = 0 \<and> p ! (i + 2) = 1 \<and> PS_STREAM_ID_END_STREAM \<le> p ! (i + 3)"

definition cdxasynccode :: "u8 list" where
  "cdxasynccode = [0x00, 0xff, 0xff, 0xff, 0xff, 0xff, 0xff, 0xff, 0xff, 0xff, 0xff, 0x00]"

text \<open>
  The CDXA test of the loop, on a buffer of at least 48 bytes: the \<^verbatim>\<open>while\<close> counts
  the leading zero bytes, at most 24; the count must be 20 and the bytes 24 to 35
  the CDXA sync code.
\<close>

definition cdxa_padding :: "u8 list \<Rightarrow> bool" where
  "cdxa_padding p \<longleftrightarrow>
     length (takeWhile (\<lambda>b. b = 0) (take 24 p)) = 20 \<and> take 12 (drop 24 p) = cdxasynccode"

text \<open>
  The \<^verbatim>\<open>for( ;; )\<close> loop: \<open>p\<close> is the rest of the peeked bytes (\<^verbatim>\<open>p_peek\<close>, with
  \<^verbatim>\<open>i_peek\<close> its length). The result is whether the loop returned at a start code,
  and \<^verbatim>\<open>i_skip\<close> (here \<open>n_skip\<close>: the track's field has the name).
\<close>

function resynch_loop :: "bool \<Rightarrow> bool \<Rightarrow> u8 list \<Rightarrow> nat \<Rightarrow> bool \<times> nat" where
  "resynch_loop cdxa pack p n_skip =
     (if length p < 4 then (False, n_skip)
      else if cdxa \<and> n_skip = 0 \<and> 48 \<le> length p \<and> cdxa_padding p
        then resynch_loop cdxa pack (drop 48 p) (n_skip + 48)
      else if start_code_at p 0 \<and> (\<not> pack \<or> p ! 3 = PS_STREAM_ID_PACK_HEADER)
        then (True, n_skip)
      else resynch_loop cdxa pack (drop 1 p) (n_skip + 1))"
  by pat_completeness auto
termination
  by (relation "measure (\<lambda>(cdxa, pack, p, n_skip). length p)") auto

declare resynch_loop.simps [simp del]

text \<open>The result: -1 error, 0 not synchronised, 1 ok; and the stream.\<close>

definition ps_pkt_resynch :: "stream_t \<Rightarrow> bool \<Rightarrow> bool \<Rightarrow> int \<times> stream_t" where
  "ps_pkt_resynch st cdxa pack =
     (let p4 = vlc_stream_Peek st 4 in
      if length p4 < 4 then (- 1, st)
      else if start_code_at p4 0 then (1, st)
      else let p = vlc_stream_Peek st 512 in
        if length p < 4 then (- 1, st)
        else case resynch_loop cdxa pack p 0 of
          (found, n_skip) \<Rightarrow>
            (case vlc_stream_Read st n_skip of
              (n, st') \<Rightarrow> (if n = n_skip then (if found then 1 else 0) else - 1, st')))"

subsection \<open>ps_pkt_read\<close>

text \<open>
  The inner \<^verbatim>\<open>while( i_size <= i_peek - 4 )\<close> of the search for the next start code:
  \<open>Inl i_size\<close> when a start code is found at \<open>i_size\<close>, \<open>Inr i_size\<close> when the
  window is exhausted.
\<close>

function pkt_read_window :: "u8 list \<Rightarrow> nat \<Rightarrow> nat + nat" where
  "pkt_read_window p i_size =
     (if i_size + 4 \<le> length p
      then (if start_code_at p i_size then Inl i_size else pkt_read_window p (i_size + 1))
      else Inr i_size)"
  by pat_completeness auto
termination
  by (relation "measure (\<lambda>(p, i_size). length p - i_size)") auto

declare pkt_read_window.simps [simp del]

text \<open>
  The outer \<^verbatim>\<open>for( ;; )\<close>: peek \<open>i_size + 1024\<close> bytes, give up when no more than
  \<open>i_size + 4\<close> came, else search the window. The result is the size found.
\<close>

function pkt_read_search :: "stream_t \<Rightarrow> nat \<Rightarrow> nat option" where
  "pkt_read_search st i_size =
     (let p = vlc_stream_Peek st (i_size + 1024) in
      if length p \<le> i_size + 4 then None
      else case pkt_read_window p i_size of
        Inl k \<Rightarrow> Some k
      | Inr i_size' \<Rightarrow> pkt_read_search st i_size')"
  by pat_completeness auto
termination
proof (relation "measure (\<lambda>(st, i_size). length (s_data st) - s_pos st - i_size)", goal_cases)
  case 1
  show ?case by simp
next
  case (2 st i_size p j)
  have w: "pkt_read_window q i = Inr j \<Longrightarrow> i \<le> j \<and> length q < j + 4" for q i
  proof (induction q i rule: pkt_read_window.induct)
    case (1 q i)
    then show ?case
      by (subst (asm) (2) pkt_read_window.simps) (auto split: if_splits)
  qed
  from 2(3) have j: "i_size \<le> j" "length p < j + 4"
    using w [of p i_size] by auto
  from 2(1) have "length p \<le> length (s_data st) - s_pos st"
    by (simp add: vlc_stream_Peek_def)
  with j 2(2) show ?case by simp
qed

declare pkt_read_search.simps [simp del]

text \<open>
  \<^verbatim>\<open>ps_pkt_read\<close>; \<^verbatim>\<open>ps_pkt_size\<close> is a function of \<^verbatim>\<open>ps.h\<close>, here the parameter
  \<open>pkt_size\<close> (it gets the peeked bytes, \<^verbatim>\<open>i_peek\<close> being their number).
\<close>

definition ps_pkt_read :: "(u8 list \<Rightarrow> int) \<Rightarrow> stream_t \<Rightarrow> block_t option \<times> stream_t" where
  "ps_pkt_read pkt_size st =
     (let p = vlc_stream_Peek st 14 in
      if length p < 4 then (None, st)
      else let i_size = pkt_size p in
        if i_size \<le> 6 \<and> PS_STREAM_ID_PACK_HEADER < p ! 3 then
          (case pkt_read_search st 6 of
             None \<Rightarrow> (None, st)
           | Some k \<Rightarrow> vlc_stream_Block st (int k))
        else vlc_stream_Block st i_size)"

subsection \<open>The sink and the demuxer\<close>

text \<open>
  The calls made on the sink \<^verbatim>\<open>p_demux->out\<close> are recorded in order: \<^verbatim>\<open>es_out_Add\<close>
  (with the index of the track it is made for and the handle it returned),
  \<^verbatim>\<open>es_out_Del\<close>, \<^verbatim>\<open>es_out_Control( ES_OUT_SET_PCR )\<close> and \<^verbatim>\<open>es_out_Send\<close>. The file sets
  the clock at two places, which the record keeps apart: from the pending SCR
  (\<open>PCR_from_SCR\<close>) and from the time stamp of a packet (\<open>PCR_forced\<close>).
\<close>

datatype pcr_site = PCR_from_SCR | PCR_forced

datatype es_out_event =
  ES_OUT_ADD nat "es_out_id_t option"
| ES_OUT_DEL es_out_id_t
| ES_OUT_SET_PCR pcr_site int
| ES_OUT_SEND es_out_id_t block_t

text \<open>
  The sink is also handed to \<^verbatim>\<open>ps_psm_fill\<close> of \<^verbatim>\<open>ps.h\<close> (the map case of \<^verbatim>\<open>Demux\<close>).
  Of the calls that function makes on the sink, those that delete or create the
  sink of a track are part of its result and go into the record.
\<close>

datatype sink_call =
  SINK_DEL es_out_id_t
| SINK_ADD nat "es_out_id_t option"

fun sink_event :: "sink_call \<Rightarrow> es_out_event" where
  "sink_event (SINK_DEL e) = ES_OUT_DEL e"
| "sink_event (SINK_ADD i h) = ES_OUT_ADD i h"

record demux_t =
  s :: stream_t
  out :: "es_out_event list"
  p_sys :: demux_sys_t

text \<open>The queries of \<^verbatim>\<open>Control\<close>; the \<^verbatim>\<open>double\<close> of a position is carried as a real.\<close>

datatype demux_query =
  DEMUX_CAN_SEEK
| DEMUX_GET_POSITION
| DEMUX_SET_POSITION real
| DEMUX_GET_TIME
| DEMUX_GET_LENGTH
| DEMUX_SET_TIME int
| DEMUX_GET_TITLE_INFO
| DEMUX_SET_TITLE
| DEMUX_SET_SEEKPOINT
| DEMUX_GET_META
| DEMUX_GET_FPS
| DEMUX_other_query

text \<open>
  What the file calls and does not define is a parameter of the model: the
  functions and macros of \<^verbatim>\<open>ps.h\<close> and \<^verbatim>\<open>pes.h\<close>, the answers of the sink, seeking
  and control of the byte source, the option \<^verbatim>\<open>ps-trust-timestamps\<close>, and the two
  floating point products of \<^verbatim>\<open>Control\<close>.
  \<^item> \<open>ps_pkt_parse_pes\<close> gives the parsed block, \<open>None\<close> when it fails;
  \<^item> \<open>ps_pkt_parse_pack\<close> gets the current \<^verbatim>\<open>i_scr\<close> and gives its return code, the
    \<^verbatim>\<open>i_scr\<close> it leaves and the mux rate;
  \<^item> \<open>ps_pkt_parse_system\<close>, \<open>ps_psm_fill\<close> and \<open>ps_track_fill\<close> give what they leave
    in the objects they get pointers to; \<open>ps_psm_fill\<close> gets the sink as well, as
    the record of the calls made so far, and gives the calls it makes on it;
  \<^item> \<open>es_out_Add\<close> gives the new handle or the null pointer, and may depend on the
    calls made so far; \<open>es_out_GET_ES_STATE\<close> gives \<open>None\<close> when the control call
    fails, else whether the sink is selected;
  \<^item> \<open>vlc_stream_Seek\<close> gives the stream after a successful seek, else \<open>None\<close>;
  \<^item> \<open>position_offset i64 f\<close> is \<^verbatim>\<open>(int64_t)(i64 * f)\<close> and \<open>time_offset i_pos i64 i_now\<close>
    is \<^verbatim>\<open>i_pos *= (float)i64 / (float)i_now\<close>.
\<close>

record ps_env =
  ps_pkt_size :: "u8 list \<Rightarrow> int"
  ps_pkt_id :: "block_t \<Rightarrow> int"
  PS_ID_TO_TK :: "int \<Rightarrow> nat"
  PS_TK_COUNT :: nat
  ps_pkt_parse_pes :: "block_t \<Rightarrow> int \<Rightarrow> block_t option"
  ps_pkt_parse_pack :: "block_t \<Rightarrow> int \<Rightarrow> int \<times> int \<times> int"
  ps_pkt_parse_system ::
    "block_t \<Rightarrow> ps_psm_t \<Rightarrow> (nat \<Rightarrow> ps_track_t) \<Rightarrow> int \<times> ps_psm_t \<times> (nat \<Rightarrow> ps_track_t)"
  ps_psm_fill ::
    "ps_psm_t \<Rightarrow> block_t \<Rightarrow> (nat \<Rightarrow> ps_track_t) \<Rightarrow> es_out_event list \<Rightarrow>
     ps_psm_t \<times> (nat \<Rightarrow> ps_track_t) \<times> sink_call list"
  ps_track_fill :: "ps_track_t \<Rightarrow> ps_psm_t \<Rightarrow> int \<Rightarrow> block_t \<Rightarrow> int \<times> ps_track_t"
  es_out_Add :: "es_out_event list \<Rightarrow> es_format_t \<Rightarrow> es_out_id_t option"
  es_out_GET_ES_STATE :: "es_out_id_t \<Rightarrow> bool option"
  vlc_stream_Seek :: "stream_t \<Rightarrow> int \<Rightarrow> stream_t option"
  vlc_stream_vaControl :: "demux_query \<Rightarrow> stream_t \<Rightarrow> int \<times> stream_t"
  ps_trust_timestamps :: bool
  position_offset :: "int \<Rightarrow> real \<Rightarrow> int"
  time_offset :: "int \<Rightarrow> int \<Rightarrow> int \<Rightarrow> int"

subsection \<open>NotifyDiscontinuity\<close>

text \<open>The body of the loop, for the track at index \<open>i\<close>.\<close>

definition notify_track :: "ps_env \<Rightarrow> ps_track_t \<Rightarrow> ps_track_t" where
  "notify_track env t =
     (case es t of
        None \<Rightarrow> t
      | Some e \<Rightarrow>
          if b_seen t \<and> es_out_GET_ES_STATE env e = Some True
          then t\<lparr>i_next_block_flags := i_next_block_flags t OR BLOCK_FLAG_DISCONTINUITY\<rparr>
          else t)"

definition NotifyDiscontinuity :: "ps_env \<Rightarrow> (nat \<Rightarrow> ps_track_t) \<Rightarrow> (nat \<Rightarrow> ps_track_t)" where
  "NotifyDiscontinuity env p_tk =
     fold (\<lambda>i a. a(i := notify_track env (a i))) [0..<PS_TK_COUNT env] p_tk"

subsection \<open>Demux2 and FindLength\<close>

definition Demux2 :: "ps_env \<Rightarrow> demux_t \<Rightarrow> bool \<Rightarrow> int \<times> demux_t" where
  "Demux2 env d b_end =
     (case ps_pkt_resynch (s d) (b_cdxa (p_sys d)) (b_have_pack (p_sys d)) of
        (i_ret, st) \<Rightarrow>
          if i_ret < 0 then (VLC_DEMUXER_EOF, d\<lparr>s := st\<rparr>)
          else if i_ret = 0 then
            (VLC_DEMUXER_SUCCESS, d\<lparr>s := st, p_sys := (p_sys d)\<lparr>b_lost_sync := True\<rparr>\<rparr>)
          else
            (case ps_pkt_read (ps_pkt_size env) st of
               (None, st') \<Rightarrow>
                 (VLC_DEMUXER_EOF, d\<lparr>s := st', p_sys := (p_sys d)\<lparr>b_lost_sync := False\<rparr>\<rparr>)
             | (Some p_pkt, st') \<Rightarrow>
                 let sys = (p_sys d)\<lparr>b_lost_sync := False\<rparr>;
                     id = ps_pkt_id env p_pkt;
                     k = PS_ID_TO_TK env id;
                     t = tk sys k;
                     sys =
                       (if 0xc0 \<le> id then
                          (case ps_pkt_parse_pes env p_pkt (i_skip t) of
                             None \<Rightarrow> sys
                           | Some pkt' \<Rightarrow>
                               if VLC_TS_INVALID < i_pts pkt' then
                                 (if b_end \<and> i_last_pts t < i_pts pkt'
                                  then sys\<lparr>tk := (tk sys)(k := t\<lparr>i_last_pts := i_pts pkt'\<rparr>)\<rparr>
                                  else if i_first_pts t = - 1
                                  then sys\<lparr>tk := (tk sys)(k := t\<lparr>i_first_pts := i_pts pkt'\<rparr>)\<rparr>
                                  else sys)
                               else sys)
                        else sys);
                     sys = (if id = uint PS_STREAM_ID_PACK_HEADER
                            then sys\<lparr>b_have_pack := True\<rparr> else sys)
                 in (VLC_DEMUXER_SUCCESS, d\<lparr>s := st', p_sys := sys\<rparr>)))"

text \<open>\<^verbatim>\<open>while( i < n && Demux2( p_demux, b_end ) > 0 ) i++;\<close> with \<open>n\<close> rounds left.\<close>

fun Demux2_loop :: "ps_env \<Rightarrow> bool \<Rightarrow> nat \<Rightarrow> demux_t \<Rightarrow> demux_t" where
  "Demux2_loop env b_end 0 d = d"
| "Demux2_loop env b_end (Suc n) d =
     (case Demux2 env d b_end of
        (r, d') \<Rightarrow> if 0 < r then Demux2_loop env b_end n d' else d')"

text \<open>The body of the loop that finds the longest track, for the index \<open>i\<close>.\<close>

definition longest_track_step :: "nat \<Rightarrow> demux_sys_t \<Rightarrow> demux_sys_t" where
  "longest_track_step i sys =
     (let t = tk sys i in
      if 0 < i_last_pts t \<and> i_first_pts t < i_last_pts t then
        (let len = i_last_pts t - i_first_pts t in
         if i_length sys < len then sys\<lparr>i_length := len, i_time_track := int i\<rparr> else sys)
      else sys)"

definition longest_track :: "ps_env \<Rightarrow> demux_sys_t \<Rightarrow> demux_sys_t" where
  "longest_track env sys = fold longest_track_step [0..<PS_TK_COUNT env] sys"

definition FindLength :: "ps_env \<Rightarrow> demux_t \<Rightarrow> bool \<times> demux_t" where
  "FindLength env d =
     (if \<not> ps_trust_timestamps env then (True, d)
      else if i_length (p_sys d) = - 1 then
        (let d0 = d\<lparr>p_sys := (p_sys d)\<lparr>i_length := 0\<rparr>\<rparr>;
             i_current_pos = vlc_stream_Tell (s d0);
             d1 = Demux2_loop env False 40 d0;
             i_size = stream_Size (s d1);
             i_end = min (max i_size 0) 200000
         in case vlc_stream_Seek env (s d1) (i_size - i_end) of
              None \<Rightarrow> (False, d1)
            | Some st \<Rightarrow>
                let d2 = Demux2_loop env True 400 (d1\<lparr>s := st\<rparr>) in
                if 0 \<le> i_current_pos then
                  (case vlc_stream_Seek env (s d2) i_current_pos of
                     None \<Rightarrow> (False, d2)
                   | Some st' \<Rightarrow>
                       (True, d2\<lparr>s := st', p_sys := longest_track env (p_sys d2)\<rparr>))
                else (True, d2\<lparr>p_sys := longest_track env (p_sys d2)\<rparr>))
      else (True, d\<lparr>p_sys := longest_track env (p_sys d)\<rparr>))"

subsection \<open>Demux\<close>

text \<open>
  The system header case: the loop that creates the sink of every track that is
  seen, has none and has a known category; the body for the index \<open>i\<close>, on the
  tracks and the record of the sink.
\<close>

definition system_add_step ::
  "ps_env \<Rightarrow> nat \<Rightarrow> (nat \<Rightarrow> ps_track_t) \<times> es_out_event list \<Rightarrow>
   (nat \<Rightarrow> ps_track_t) \<times> es_out_event list" where
  "system_add_step env i a =
     (case a of (tks, evs) \<Rightarrow>
        let t = tks i in
        if b_seen t \<and> es t = None \<and> i_cat (fmt t) \<noteq> UNKNOWN_ES then
          (let e = es_out_Add env evs (fmt t) in
           (tks(i := t\<lparr>es := e\<rparr>), evs @ [ES_OUT_ADD i e]))
        else (tks, evs))"

definition system_add ::
  "ps_env \<Rightarrow> (nat \<Rightarrow> ps_track_t) \<times> es_out_event list \<Rightarrow>
   (nat \<Rightarrow> ps_track_t) \<times> es_out_event list" where
  "system_add env a = fold (system_add_step env) [0..<PS_TK_COUNT env] a"

text \<open>
  The elementary stream case, in the three parts the file has. First the id with
  the MLP heuristic (the new counter and the id), the track and its creation on
  first sight (the track, the record of the sink and \<^verbatim>\<open>b_new\<close>), and the reset of
  the SCR for OGT and CVD subtitles: the result is the demuxer, the index of the
  track and \<^verbatim>\<open>b_new\<close>.
\<close>

definition aob_mlp_heuristic :: "int \<Rightarrow> int \<Rightarrow> int \<times> int" where
  "aob_mlp_heuristic id0 cnt =
     (if id0 = 0xa001 \<and> cnt < 500 then (cnt + 1, id0)
      else if id0 = 0xbda1 \<and> 0 < cnt then (cnt - 1, 0xa001)
      else (cnt, id0))"

definition track_first_sight ::
  "ps_env \<Rightarrow> ps_track_t \<Rightarrow> ps_psm_t \<Rightarrow> int \<Rightarrow> block_t \<Rightarrow> nat \<Rightarrow> es_out_event list \<Rightarrow>
   ps_track_t \<times> es_out_event list \<times> bool" where
  "track_first_sight env t m pid p_pkt k evs =
     (if \<not> b_seen t then
        (case ps_track_fill env t m pid p_pkt of
           (r, tf) \<Rightarrow>
             if r = 0 then
               (let e = es_out_Add env evs (fmt tf) in
                (tf\<lparr>es := e, b_seen := True\<rparr>, evs @ [ES_OUT_ADD k e], True))
             else (tf\<lparr>b_seen := True\<rparr>, evs, False))
      else (t, evs, False))"

definition Demux_es_track :: "ps_env \<Rightarrow> demux_t \<Rightarrow> block_t \<Rightarrow> demux_t \<times> nat \<times> bool" where
  "Demux_es_track env d p_pkt =
     (case aob_mlp_heuristic (ps_pkt_id env p_pkt) (i_aob_mlp_count (p_sys d)) of
        (cnt, pid) \<Rightarrow>
          let k = PS_ID_TO_TK env pid in
          case track_first_sight env (tk (p_sys d) k) (psm (p_sys d)) pid p_pkt k (out d) of
            (t', evs, b_new) \<Rightarrow>
              let sys = (p_sys d)\<lparr>i_aob_mlp_count := cnt, tk := (tk (p_sys d))(k := t')\<rparr>;
                  sys =
                    (if b_seen t' \<and>
                        (i_codec (fmt t') = VLC_CODEC_OGT \<or> i_codec (fmt t') = VLC_CODEC_CVD)
                     then sys\<lparr>i_scr := - 1, i_last_scr := - 1\<rparr> else sys)
              in (d\<lparr>out := evs, p_sys := sys\<rparr>, k, b_new))"

text \<open>Second, the pending SCR: it disables itself or sets the clock.\<close>

definition Demux_es_scr :: "demux_t \<Rightarrow> nat \<Rightarrow> demux_t" where
  "Demux_es_scr d k =
     (let sys = p_sys d; t = tk sys k in
      if 0 \<le> i_scr sys \<and> \<not> b_bad_scr sys then
        (if (i_cat (fmt t) = AUDIO_ES \<or> i_cat (fmt t) = VIDEO_ES) \<and>
            VLC_TS_INVALID < i_first_pts t \<and> CLOCK_FREQ < i_first_pts t - i_scr sys
         then d\<lparr>p_sys := sys\<lparr>b_bad_scr := True\<rparr>\<rparr>
         else d\<lparr>out := out d @ [ES_OUT_SET_PCR PCR_from_SCR (VLC_TS_0 + i_scr sys)]\<rparr>)
      else d)"

text \<open>
  Third, the PES header, the checks on its time stamp and the packet sent to the
  sink, or released; at the end the SCR is consumed.
\<close>

definition Demux_es_pes :: "ps_env \<Rightarrow> demux_t \<Rightarrow> nat \<Rightarrow> bool \<Rightarrow> block_t \<Rightarrow> demux_t" where
  "Demux_es_pes env d k b_new p_pkt =
     (let sys = p_sys d; t = tk sys k;
          d' =
            (case (if b_seen t then es t else None) of
               None \<Rightarrow> d
             | Some e \<Rightarrow>
                 (case ps_pkt_parse_pes env p_pkt (i_skip t) of
                    None \<Rightarrow> d
                  | Some pkt \<Rightarrow>
                      let av = (i_cat (fmt t) = AUDIO_ES \<or> i_cat (fmt t) = VIDEO_ES);
                          sys =
                            (if av \<and> \<not> b_bad_scr sys \<and> 0 < i_scr sys \<and> 0 < i_pts pkt \<and>
                                i_pts pkt + CLOCK_FREQ div 4 < i_scr sys
                             then sys\<lparr>b_bad_scr := True\<rparr> else sys);
                          evs =
                            (if ((\<not> b_new \<and> \<not> b_have_pack sys) \<or> b_bad_scr sys) \<and>
                                i_cat (fmt t) = AUDIO_ES \<and> VLC_TS_INVALID < i_pts pkt
                             then out d @ [ES_OUT_SET_PCR PCR_forced (i_pts pkt)] else out d);
                          pkt =
                            (if i_codec (fmt t) = VLC_CODEC_TELETEXT \<and>
                                i_pts pkt \<le> VLC_TS_INVALID \<and> 0 \<le> i_last_scr sys
                             then pkt\<lparr>i_pts := VLC_TS_0 + i_last_scr sys + 40000\<rparr> else pkt);
                          sys =
                            (if i_current_pts sys < i_pts pkt
                             then sys\<lparr>i_current_pts := i_pts pkt\<rparr> else sys);
                          (pkt, t') =
                            (if i_next_block_flags t \<noteq> 0
                             then (pkt\<lparr>i_flags := i_next_block_flags t\<rparr>,
                                   t\<lparr>i_next_block_flags := 0\<rparr>)
                             else (pkt, t))
                      in d\<lparr>out := evs @ [ES_OUT_SEND e pkt],
                           p_sys := sys\<lparr>tk := (tk sys)(k := t')\<rparr>\<rparr>))
      in d'\<lparr>p_sys := (p_sys d')\<lparr>i_scr := - 1\<rparr>\<rparr>)"

definition Demux_es :: "ps_env \<Rightarrow> demux_t \<Rightarrow> block_t \<Rightarrow> demux_t" where
  "Demux_es env d p_pkt =
     (case Demux_es_track env d p_pkt of
        (d1, k, b_new) \<Rightarrow> Demux_es_pes env (Demux_es_scr d1 k) k b_new p_pkt)"

text \<open>The pack header case, the system header case and the map case.\<close>

definition Demux_pack :: "ps_env \<Rightarrow> demux_t \<Rightarrow> block_t \<Rightarrow> demux_t" where
  "Demux_pack env d p_pkt =
     (let sys = p_sys d in
      case ps_pkt_parse_pack env p_pkt (i_scr sys) of
        (r, scr, i_mux_rate') \<Rightarrow>
          if r = 0 then
            d\<lparr>p_sys := sys\<lparr>i_scr := scr, i_last_scr := scr, b_have_pack := True,
                 i_mux_rate := (if 0 < i_mux_rate' then i_mux_rate' else i_mux_rate sys)\<rparr>\<rparr>
          else d\<lparr>p_sys := sys\<lparr>i_scr := scr\<rparr>\<rparr>)"

definition Demux_system :: "ps_env \<Rightarrow> demux_t \<Rightarrow> block_t \<Rightarrow> demux_t" where
  "Demux_system env d p_pkt =
     (let sys = p_sys d in
      case ps_pkt_parse_system env p_pkt (psm sys) (tk sys) of
        (r, psm', tks) \<Rightarrow>
          if r = 0 then
            (case system_add env (tks, out d) of
               (tks', evs) \<Rightarrow> d\<lparr>out := evs, p_sys := sys\<lparr>psm := psm', tk := tks'\<rparr>\<rparr>)
          else d\<lparr>p_sys := sys\<lparr>psm := psm', tk := tks\<rparr>\<rparr>)"

definition Demux_map :: "ps_env \<Rightarrow> demux_t \<Rightarrow> block_t \<Rightarrow> demux_t" where
  "Demux_map env d p_pkt =
     (let sys = p_sys d in
      case ps_psm_fill env (psm sys) p_pkt (tk sys) (out d) of
        (psm', tks, calls) \<Rightarrow>
          d\<lparr>out := out d @ map sink_event calls, p_sys := sys\<lparr>psm := psm', tk := tks\<rparr>\<rparr>)"

text \<open>The \<^verbatim>\<open>switch( i_stream_id )\<close>, on a packet of at least four bytes.\<close>

definition Demux_dispatch :: "ps_env \<Rightarrow> demux_t \<Rightarrow> block_t \<Rightarrow> demux_t" where
  "Demux_dispatch env d p_pkt =
     (let i_stream_id = p_buffer p_pkt ! 3 in
      if i_stream_id = PS_STREAM_ID_END_STREAM then d
      else if i_stream_id = PS_STREAM_ID_PACK_HEADER then Demux_pack env d p_pkt
      else if i_stream_id = PS_STREAM_ID_SYSTEM_HEADER then Demux_system env d p_pkt
      else if i_stream_id = PS_STREAM_ID_MAP then Demux_map env d p_pkt
      else if i_stream_id = PS_STREAM_ID_PRIVATE_STREAM1 then Demux_es env d p_pkt
      else if i_stream_id < 0xC0 \<or> 0xEF < i_stream_id then d
      else Demux_es env d p_pkt)"

text \<open>
  \<^verbatim>\<open>Demux\<close>, first part: the resynchronisation, the lost-sync flag and the length
  estimation. \<open>Inl\<close> is an early return (the return code and the demuxer), \<open>Inr\<close>
  the demuxer with which the function goes on to read a packet.
\<close>

definition Demux_sync :: "ps_env \<Rightarrow> demux_t \<Rightarrow> (int \<times> demux_t) + demux_t" where
  "Demux_sync env d =
     (case ps_pkt_resynch (s d) (b_cdxa (p_sys d)) (b_have_pack (p_sys d)) of
        (i_ret, st) \<Rightarrow>
          if i_ret < 0 then Inl (VLC_DEMUXER_EOF, d\<lparr>s := st\<rparr>)
          else if i_ret = 0 then
            Inl (VLC_DEMUXER_SUCCESS,
                 d\<lparr>s := st,
                   p_sys := (p_sys d)\<lparr>
                     tk := (if \<not> b_lost_sync (p_sys d)
                            then NotifyDiscontinuity env (tk (p_sys d)) else tk (p_sys d)),
                     b_lost_sync := True\<rparr>\<rparr>)
          else
            (let d1 = d\<lparr>s := st, p_sys := (p_sys d)\<lparr>b_lost_sync := False\<rparr>\<rparr> in
             if i_length (p_sys d1) < 0 \<and> b_seekable (p_sys d1) then
               (case FindLength env d1 of
                  (ok, d2) \<Rightarrow> if \<not> ok then Inl (VLC_DEMUXER_EGENERIC, d2) else Inr d2)
             else Inr d1))"

text \<open>
  \<^verbatim>\<open>Demux\<close>. The messages and \<^verbatim>\<open>demux_UpdateTitleFromStream\<close> (title bookkeeping of
  VLC's core) leave the state of this model as it is.
\<close>

definition Demux :: "ps_env \<Rightarrow> demux_t \<Rightarrow> int \<times> demux_t" where
  "Demux env d =
     (case Demux_sync env d of
        Inl r \<Rightarrow> r
      | Inr d2 \<Rightarrow>
          (case ps_pkt_read (ps_pkt_size env) (s d2) of
             (None, st') \<Rightarrow> (VLC_DEMUXER_EOF, d2\<lparr>s := st'\<rparr>)
           | (Some p_pkt, st') \<Rightarrow>
               if length (p_buffer p_pkt) < 4
               then (VLC_DEMUXER_EGENERIC, d2\<lparr>s := st'\<rparr>)
               else (VLC_DEMUXER_SUCCESS, Demux_dispatch env (d2\<lparr>s := st'\<rparr>) p_pkt)))"

subsection \<open>Control\<close>

text \<open>What a query writes through the pointer it is given.\<close>

datatype control_result =
  No_result
| Bool_result bool
| Int_result int
| Quotient_result int int

text \<open>
  \<^verbatim>\<open>DEMUX_GET_POSITION\<close> divides two doubles: the result names the dividend and the
  divisor (0 and 1 for \<^verbatim>\<open>0.0\<close>). The integer divisions of \<^verbatim>\<open>DEMUX_GET_TIME\<close> and
  \<^verbatim>\<open>DEMUX_GET_LENGTH\<close> have operands that are not negative.
\<close>

definition Control :: "ps_env \<Rightarrow> demux_query \<Rightarrow> demux_t \<Rightarrow> int \<times> control_result \<times> demux_t" where
  "Control env i_query d =
     (let sys = p_sys d in
      case i_query of
        DEMUX_CAN_SEEK \<Rightarrow> (VLC_SUCCESS, Bool_result (b_seekable sys), d)
      | DEMUX_GET_POSITION \<Rightarrow>
          (let i64 = stream_Size (s d) in
           if 0 < i64 then (VLC_SUCCESS, Quotient_result (vlc_stream_Tell (s d)) i64, d)
           else (VLC_SUCCESS, Quotient_result 0 1, d))
      | DEMUX_SET_POSITION f \<Rightarrow>
          (let i64 = stream_Size (s d);
               d1 = d\<lparr>p_sys := sys\<lparr>i_current_pts := 0, i_last_scr := - 1\<rparr>\<rparr>
           in case vlc_stream_Seek env (s d1) (position_offset env i64 f) of
                Some st \<Rightarrow>
                  (VLC_SUCCESS, No_result,
                   d1\<lparr>s := st,
                      p_sys := (p_sys d1)\<lparr>tk := NotifyDiscontinuity env (tk (p_sys d1))\<rparr>\<rparr>)
              | None \<Rightarrow> (VLC_EGENERIC, No_result, d1))
      | DEMUX_GET_TIME \<Rightarrow>
          (if 0 \<le> i_time_track sys \<and> 0 < i_current_pts sys then
             (VLC_SUCCESS,
              Int_result (i_current_pts sys - i_first_pts (tk sys (nat (i_time_track sys)))), d)
           else if 0 < i_mux_rate sys then
             (VLC_SUCCESS,
              Int_result (1000000 * (vlc_stream_Tell (s d) div 50) div i_mux_rate sys), d)
           else (VLC_EGENERIC, Int_result 0, d))
      | DEMUX_GET_LENGTH \<Rightarrow>
          (if 0 < i_length sys then (VLC_SUCCESS, Int_result (i_length sys), d)
           else if 0 < i_mux_rate sys then
             (VLC_SUCCESS,
              Int_result (1000000 * (stream_Size (s d) div 50) div i_mux_rate sys), d)
           else (VLC_EGENERIC, Int_result 0, d))
      | DEMUX_SET_TIME i64 \<Rightarrow>
          (if 0 \<le> i_time_track sys \<and> 0 < i_current_pts sys then
             (let i_now = i_current_pts sys - i_first_pts (tk sys (nat (i_time_track sys)));
                  i_pos = vlc_stream_Tell (s d)
              in if i_now = 0 then
                   (if i64 \<noteq> 0 then VLC_EGENERIC else VLC_SUCCESS, No_result, d)
                 else
                   (let d1 = d\<lparr>p_sys := sys\<lparr>i_current_pts := 0, i_last_scr := - 1\<rparr>\<rparr> in
                    case vlc_stream_Seek env (s d1) (time_offset env i_pos i64 i_now) of
                      Some st \<Rightarrow>
                        (VLC_SUCCESS, No_result,
                         d1\<lparr>s := st,
                            p_sys := (p_sys d1)\<lparr>tk := NotifyDiscontinuity env (tk (p_sys d1))\<rparr>\<rparr>)
                    | None \<Rightarrow> (VLC_EGENERIC, No_result, d1)))
           else (VLC_EGENERIC, No_result, d))
      | DEMUX_GET_TITLE_INFO \<Rightarrow>
          (case vlc_stream_vaControl env i_query (s d) of
             (r, st) \<Rightarrow> (r, Int_result 0, d\<lparr>s := st\<rparr>))
      | DEMUX_SET_TITLE \<Rightarrow>
          (case vlc_stream_vaControl env i_query (s d) of (r, st) \<Rightarrow> (r, No_result, d\<lparr>s := st\<rparr>))
      | DEMUX_SET_SEEKPOINT \<Rightarrow>
          (case vlc_stream_vaControl env i_query (s d) of (r, st) \<Rightarrow> (r, No_result, d\<lparr>s := st\<rparr>))
      | DEMUX_GET_META \<Rightarrow>
          (case vlc_stream_vaControl env i_query (s d) of (r, st) \<Rightarrow> (r, No_result, d\<lparr>s := st\<rparr>))
      | DEMUX_GET_FPS \<Rightarrow> (VLC_EGENERIC, No_result, d)
      | DEMUX_other_query \<Rightarrow> (VLC_EGENERIC, No_result, d))"

subsection \<open>Runs of the engine\<close>

text \<open>
  The host calls \<^verbatim>\<open>Demux\<close> and \<^verbatim>\<open>Control\<close> in any order; a run is a list of such
  calls, each on the demuxer the call before left.
\<close>

datatype engine_call = Call_Demux | Call_Control demux_query

definition engine_step :: "ps_env \<Rightarrow> engine_call \<Rightarrow> demux_t \<Rightarrow> demux_t" where
  "engine_step env c d =
     (case c of
        Call_Demux \<Rightarrow> snd (Demux env d)
      | Call_Control q \<Rightarrow> snd (snd (Control env q d)))"

definition engine_run :: "ps_env \<Rightarrow> engine_call list \<Rightarrow> demux_t \<Rightarrow> demux_t" where
  "engine_run env cs d = fold (engine_step env) cs d"

subsection \<open>The state OpenCommon leaves\<close>

text \<open>
  Modelled from the spec: \<^verbatim>\<open>ps_track_init\<close> and \<^verbatim>\<open>ps_psm_init\<close> of \<^verbatim>\<open>ps.h\<close>. Every track
  is allocated unseen at engine start, without a sink, its time stamps unset (the
  sentinel is negative: \<^verbatim>\<open>Demux2\<close> tests \<^verbatim>\<open>i_first_pts == -1\<close>); the version of the
  map has the sentinel for "never received", which \<^verbatim>\<open>Demux\<close> tests as \<^verbatim>\<open>0xFFFF\<close>.
\<close>

definition ps_track_init :: "nat \<Rightarrow> ps_track_t" where
  "ps_track_init = (\<lambda>i. \<lparr>b_seen = False, i_skip = 0, i_id = 0, i_next_block_flags = 0,
       es = None, fmt = \<lparr>i_cat = UNKNOWN_ES, i_codec = VLC_CODEC_other 0\<rparr>,
       i_first_pts = - 1, i_last_pts = - 1\<rparr>)"

definition ps_psm_init :: ps_psm_t where
  "ps_psm_init = \<lparr>i_version = 0xFFFF, psm_es = []\<rparr>"

text \<open>The fields as \<^verbatim>\<open>OpenCommon\<close> initialises them, on a stream and its two flags.\<close>

definition Open_demux :: "stream_t \<Rightarrow> bool \<Rightarrow> bool \<Rightarrow> demux_t" where
  "Open_demux st cdxa seekable =
     \<lparr>s = st, out = [],
      p_sys = \<lparr>psm = ps_psm_init, tk = ps_track_init, i_scr = - 1, i_last_scr = - 1,
        i_mux_rate = 0, i_length = - 1, i_time_track = - 1, i_current_pts = 0,
        i_aob_mlp_count = 0, b_lost_sync = False, b_have_pack = False, b_bad_scr = False,
        b_seekable = seekable, b_cdxa = cdxa\<rparr>\<rparr>"

subsection \<open>An instance of the parameters\<close>

text \<open>
  An instance of the parameters on which the definitions can be run: packet sizes
  by the rules of the program stream (an end code has 4 bytes, a pack header 14,
  any other packet 6 plus its 16-bit length), the track of an id its offset from
  0xC0, ids 0xE0 to 0xEF video and 0xC0 to 0xDF audio, a PES time stamp read from
  the ninth byte of a packet and an SCR from the fifth byte of a pack header (in
  milliseconds), a sink that hands out the number of calls made so far as the new
  handle and has every track selected, and a byte source that seeks to any
  offset that is not negative.
\<close>

definition example_env :: ps_env where
  "example_env =
     \<lparr>ps_pkt_size = (\<lambda>p. if p ! 3 = 0xB9 then 4 else if p ! 3 = 0xBA then 14
          else if 6 \<le> length p then 6 + 256 * uint (p ! 4) + uint (p ! 5) else - 1),
      ps_pkt_id = (\<lambda>b. uint (p_buffer b ! 3)),
      PS_ID_TO_TK = (\<lambda>id. nat (id - 0xc0)),
      PS_TK_COUNT = 48,
      ps_pkt_parse_pes = (\<lambda>b n. if 9 \<le> length (p_buffer b)
          then Some (b\<lparr>i_pts := 1000 * uint (p_buffer b ! 8)\<rparr>) else None),
      ps_pkt_parse_pack = (\<lambda>b scr. if 14 \<le> length (p_buffer b)
          then (0, 1000 * uint (p_buffer b ! 4), uint (p_buffer b ! 10)) else (- 1, scr, 0)),
      ps_pkt_parse_system = (\<lambda>b m tks. (0, m, tks)),
      ps_psm_fill = (\<lambda>m b tks evs. (m, tks, [])),
      ps_track_fill = (\<lambda>t m id b.
          if 0xe0 \<le> id \<and> id \<le> 0xef
          then (0, t\<lparr>i_skip := 0, i_id := id, fmt := \<lparr>i_cat = VIDEO_ES, i_codec = VLC_CODEC_other 1\<rparr>\<rparr>)
          else if 0xc0 \<le> id \<and> id \<le> 0xdf
          then (0, t\<lparr>i_skip := 0, i_id := id, fmt := \<lparr>i_cat = AUDIO_ES, i_codec = VLC_CODEC_other 2\<rparr>\<rparr>)
          else (- 1, t\<lparr>i_skip := 0, i_id := id\<rparr>)),
      es_out_Add = (\<lambda>evs f. Some (length evs)),
      es_out_GET_ES_STATE = (\<lambda>e. Some True),
      vlc_stream_Seek = (\<lambda>st n. if 0 \<le> n then Some (st\<lparr>s_pos := nat n\<rparr>) else None),
      vlc_stream_vaControl = (\<lambda>q st. (- 1, st)),
      ps_trust_timestamps = True,
      position_offset = (\<lambda>n f. \<lfloor>of_int n * f\<rfloor>),
      time_offset = (\<lambda>i_pos i64 i_now. i_pos * i64 div i_now)\<rparr>"

text \<open>
  A demuxer in the middle of a file: the video track of id 0xE0 is seen, has the
  sink 0 and is the time source; its first time stamp is 1000, its last 5000.
\<close>

definition example_track :: ps_track_t where
  "example_track =
     \<lparr>b_seen = True, i_skip = 0, i_id = 0xe0, i_next_block_flags = 0, es = Some 0,
      fmt = \<lparr>i_cat = VIDEO_ES, i_codec = VLC_CODEC_other 1\<rparr>,
      i_first_pts = 1000, i_last_pts = 5000\<rparr>"

definition example_demux :: demux_t where
  "example_demux =
     \<lparr>s = \<lparr>s_data = [0, 0, 1, 0xE0, 0, 3, 0x80, 0x80, 0x5A, 0, 0, 1, 0xB9], s_pos = 9\<rparr>,
      out = [ES_OUT_ADD 32 (Some 0)],
      p_sys = \<lparr>psm = ps_psm_init, tk = ps_track_init(32 := example_track), i_scr = - 1,
        i_last_scr = 0, i_mux_rate = 0, i_length = 4000, i_time_track = 32,
        i_current_pts = 3000, i_aob_mlp_count = 0, b_lost_sync = False, b_have_pack = True,
        b_bad_scr = False, b_seekable = True, b_cdxa = False\<rparr>\<rparr>"

text \<open>
  The same parameters with a \<^verbatim>\<open>ps_pkt_size\<close> that declares two bytes for every
  packet.
\<close>

definition short_env :: ps_env where
  "short_env = example_env\<lparr>ps_pkt_size := (\<lambda>p. 2)\<rparr>"

text \<open>
  Two streams: a pack header (SCR 0) followed by an audio packet of id 0xC0 with
  the time stamp 90000; and two video packets of id 0xE0 with the time stamps
  90000 and 91000.
\<close>

definition pack_audio_stream :: stream_t where
  "pack_audio_stream =
     \<lparr>s_data = [0, 0, 1, 0xBA, 0, 0, 0, 0, 0, 0, 0, 0, 0, 0,
                0, 0, 1, 0xC0, 0, 3, 0x80, 0x80, 0x5A], s_pos = 0\<rparr>"

definition video_stream :: stream_t where
  "video_stream =
     \<lparr>s_data = [0, 0, 1, 0xE0, 0, 3, 0x80, 0x80, 0x5A,
                0, 0, 1, 0xE0, 0, 3, 0x80, 0x80, 0x5B], s_pos = 0\<rparr>"

text \<open>
  A demuxer of a stream without pack headers whose audio track of id 0xC0 is seen
  and has the sink 0, and the next audio packet of that stream.
\<close>

definition audio_demux :: demux_t where
  "audio_demux =
     \<lparr>s = \<lparr>s_data = [], s_pos = 0\<rparr>, out = [ES_OUT_ADD 0 (Some 0)],
      p_sys = \<lparr>psm = ps_psm_init,
        tk = ps_track_init(0 := \<lparr>b_seen = True, i_skip = 0, i_id = 0xc0, i_next_block_flags = 0,
               es = Some 0, fmt = \<lparr>i_cat = AUDIO_ES, i_codec = VLC_CODEC_other 2\<rparr>,
               i_first_pts = - 1, i_last_pts = - 1\<rparr>),
        i_scr = - 1, i_last_scr = - 1, i_mux_rate = 0, i_length = - 1, i_time_track = - 1,
        i_current_pts = 89000, i_aob_mlp_count = 0, b_lost_sync = False, b_have_pack = False,
        b_bad_scr = False, b_seekable = False, b_cdxa = False\<rparr>\<rparr>"

definition audio_pkt :: block_t where
  "audio_pkt = \<lparr>p_buffer = [0, 0, 1, 0xC0, 0, 3, 0x80, 0x80, 0x5A], i_pts = 0, i_flags = 0\<rparr>"

text \<open>
  A stream of four packets: video with the time stamp 1000, audio with 2000,
  audio with 3000, video with 5000.
\<close>

definition av_stream :: stream_t where
  "av_stream =
     \<lparr>s_data = [0, 0, 1, 0xE0, 0, 3, 0x80, 0x80, 1,
                0, 0, 1, 0xC0, 0, 3, 0x80, 0x80, 2,
                0, 0, 1, 0xC0, 0, 3, 0x80, 0x80, 3,
                0, 0, 1, 0xE0, 0, 3, 0x80, 0x80, 5], s_pos = 0\<rparr>"

text \<open>Eight bytes that hold no start code.\<close>

definition garbage_stream :: stream_t where
  "garbage_stream = \<lparr>s_data = [0xFF, 0xFF, 0xFF, 0xFF, 0xFF, 0xFF, 0xFF, 0xFF], s_pos = 0\<rparr>"

text \<open>
  The demuxer in the middle of a file with the SCR 0 pending and a video track
  whose first time stamp is three seconds.
\<close>

definition late_demux :: demux_t where
  "late_demux =
     example_demux\<lparr>p_sys := (p_sys example_demux)\<lparr>i_scr := 0,
       tk := (tk (p_sys example_demux))(32 := example_track\<lparr>i_first_pts := 3000000\<rparr>)\<rparr>\<rparr>"

text \<open>
  The demuxer in the middle of a file that has lost synchronisation, with the
  video track marked with a discontinuity, in front of a video packet.
\<close>

definition marked_demux :: demux_t where
  "marked_demux =
     example_demux\<lparr>s := video_stream,
       p_sys := (p_sys example_demux)\<lparr>b_lost_sync := True,
         tk := (tk (p_sys example_demux))
           (32 := example_track\<lparr>i_next_block_flags := BLOCK_FLAG_DISCONTINUITY\<rparr>)\<rparr>\<rparr>"

text \<open>
  A byte of garbage, a video header and a pack header; and the same without the
  pack header.
\<close>

definition scan_stream :: stream_t where
  "scan_stream = \<lparr>s_data = [0xFF, 0, 0, 1, 0xE0, 0, 0, 1, 0xBA], s_pos = 0\<rparr>"

definition no_pack_stream :: stream_t where
  "no_pack_stream = \<lparr>s_data = [0xFF, 0, 0, 1, 0xE0, 0, 0], s_pos = 0\<rparr>"





section \<open>Properties\<close>

subsection \<open>Notions the properties are stated with\<close>

text \<open>
  A track is marked by \<^verbatim>\<open>NotifyDiscontinuity\<close> when it is seen, has a sink, and the
  sink answers the state query with success and "selected".
\<close>

definition marked :: "ps_env \<Rightarrow> ps_track_t \<Rightarrow> bool" where
  "marked env t \<longleftrightarrow> b_seen t \<and> (\<exists>e. es t = Some e \<and> es_out_GET_ES_STATE env e = Some True)"

text \<open>
  \<open>discontinuity_marked env tks tks'\<close>: the tracks \<open>tks'\<close> are the tracks \<open>tks\<close> with
  the discontinuity flag set on every track below \<^verbatim>\<open>PS_TK_COUNT\<close> that is marked,
  and nothing else changed.
\<close>

definition discontinuity_marked ::
  "ps_env \<Rightarrow> (nat \<Rightarrow> ps_track_t) \<Rightarrow> (nat \<Rightarrow> ps_track_t) \<Rightarrow> bool" where
  "discontinuity_marked env tks tks' \<longleftrightarrow>
     (\<forall>i. tks' i =
        (if i < PS_TK_COUNT env \<and> marked env (tks i)
         then (tks i)\<lparr>i_next_block_flags :=
                i_next_block_flags (tks i) OR BLOCK_FLAG_DISCONTINUITY\<rparr>
         else tks i))"

text \<open>
  What a seek leaves: the current time stamp 0, the last SCR unset, and the
  discontinuity marked on the tracks as they were before.
\<close>

definition seek_effect :: "ps_env \<Rightarrow> demux_t \<Rightarrow> demux_t \<Rightarrow> bool" where
  "seek_effect env d d' \<longleftrightarrow>
     i_current_pts (p_sys d') = 0 \<and> i_last_scr (p_sys d') = - 1 \<and>
     discontinuity_marked env (tk (p_sys d)) (tk (p_sys d'))"

text \<open>
  A track counts for the length when its last time stamp is positive and greater
  than its first; its span is the difference of the two.
\<close>

definition has_span :: "ps_track_t \<Rightarrow> bool" where
  "has_span t \<longleftrightarrow> 0 < i_last_pts t \<and> i_first_pts t < i_last_pts t"

definition track_span :: "ps_track_t \<Rightarrow> int" where
  "track_span t = i_last_pts t - i_first_pts t"

text \<open>
  What the length estimation and its probing calls of \<^verbatim>\<open>Demux2\<close> leave as it is:
  the record of the sink, the map, the clock (SCR, last SCR, mux rate, current
  time stamp), the MLP counter, the flags \<^verbatim>\<open>b_bad_scr\<close>, \<^verbatim>\<open>b_seekable\<close>, \<^verbatim>\<open>b_cdxa\<close>, and
  of every track all but its first and last time stamp.
\<close>

definition probe_frame :: "demux_t \<Rightarrow> demux_t \<Rightarrow> bool" where
  "probe_frame d d' \<longleftrightarrow>
     out d' = out d \<and> psm (p_sys d') = psm (p_sys d) \<and> i_scr (p_sys d') = i_scr (p_sys d) \<and>
     i_last_scr (p_sys d') = i_last_scr (p_sys d) \<and> i_mux_rate (p_sys d') = i_mux_rate (p_sys d) \<and>
     i_current_pts (p_sys d') = i_current_pts (p_sys d) \<and>
     i_aob_mlp_count (p_sys d') = i_aob_mlp_count (p_sys d) \<and>
     b_bad_scr (p_sys d') = b_bad_scr (p_sys d) \<and> b_seekable (p_sys d') = b_seekable (p_sys d) \<and>
     b_cdxa (p_sys d') = b_cdxa (p_sys d) \<and>
     (\<forall>i. b_seen (tk (p_sys d') i) = b_seen (tk (p_sys d) i) \<and>
          i_skip (tk (p_sys d') i) = i_skip (tk (p_sys d) i) \<and>
          i_id (tk (p_sys d') i) = i_id (tk (p_sys d) i) \<and>
          i_next_block_flags (tk (p_sys d') i) = i_next_block_flags (tk (p_sys d) i) \<and>
          es (tk (p_sys d') i) = es (tk (p_sys d) i) \<and>
          fmt (tk (p_sys d') i) = fmt (tk (p_sys d) i))"

text \<open>
  A track is eligible for the sink creation of the system header case when it is
  seen, has no sink and has a known category. \<open>same_but_es t t'\<close>: the track \<open>t'\<close>
  is \<open>t\<close> but for its sink.
\<close>

definition eligible :: "ps_track_t \<Rightarrow> bool" where
  "eligible t \<longleftrightarrow> b_seen t \<and> es t = None \<and> i_cat (fmt t) \<noteq> UNKNOWN_ES"

definition same_but_es :: "ps_track_t \<Rightarrow> ps_track_t \<Rightarrow> bool" where
  "same_but_es t t' \<longleftrightarrow> t' = t\<lparr>es := es t'\<rparr>"

text \<open>What the dispatch of a packet never writes.\<close>

definition dispatch_frame :: "demux_t \<Rightarrow> demux_t \<Rightarrow> bool" where
  "dispatch_frame d d' \<longleftrightarrow>
     s d' = s d \<and> i_length (p_sys d') = i_length (p_sys d) \<and>
     i_time_track (p_sys d') = i_time_track (p_sys d) \<and>
     b_seekable (p_sys d') = b_seekable (p_sys d) \<and> b_cdxa (p_sys d') = b_cdxa (p_sys d) \<and>
     b_lost_sync (p_sys d') = b_lost_sync (p_sys d)"

text \<open>
  The length estimation probes the stream (with \<^verbatim>\<open>Demux2\<close>) only in a call of
  \<^verbatim>\<open>FindLength\<close> made while the length is unset (-1), the stream seekable and the
  time stamps trusted. \<open>past_probe\<close>: that can no longer happen. The invariant
  \<open>probes_before_sinks\<close> of the runs from \<^verbatim>\<open>Open\<close>: while it still can, no track has
  a sink.
\<close>

definition past_probe :: "ps_env \<Rightarrow> demux_t \<Rightarrow> bool" where
  "past_probe env d \<longleftrightarrow>
     0 \<le> i_length (p_sys d) \<or>
     (i_length (p_sys d) = - 1 \<and> \<not> (b_seekable (p_sys d) \<and> ps_trust_timestamps env))"

definition probes_before_sinks :: "ps_env \<Rightarrow> demux_t \<Rightarrow> bool" where
  "probes_before_sinks env d \<longleftrightarrow>
     past_probe env d \<or>
     (i_length (p_sys d) = - 1 \<and> (\<forall>i. es (tk (p_sys d) i) = None))"

text \<open>
  The calls that set the clock from the SCR, and what it means that the SCR stays
  disabled from \<open>d\<close> to \<open>d'\<close>: the flag is set in \<open>d'\<close> and no such call was added.
\<close>

fun is_scr_push :: "es_out_event \<Rightarrow> bool" where
  "is_scr_push (ES_OUT_SET_PCR PCR_from_SCR v) = True"
| "is_scr_push e = False"

definition scr_off :: "demux_t \<Rightarrow> demux_t \<Rightarrow> bool" where
  "scr_off d d' \<longleftrightarrow>
     b_bad_scr (p_sys d') \<and> filter is_scr_push (out d') = filter is_scr_push (out d)"






text \<open>
  A pack header at offset \<open>j\<close> of a buffer: a valid start code with the id 0xBA.
  The offset at which the loop of \<^verbatim>\<open>ps_pkt_resynch\<close> begins to look for start codes
  in the peeked bytes: 48 when it skips the CDXA padding (\<^verbatim>\<open>b_cdxa\<close> set, at least
  48 bytes, the padding recognised), else 0.
\<close>

definition pack_header_at :: "u8 list \<Rightarrow> nat \<Rightarrow> bool" where
  "pack_header_at p j \<longleftrightarrow> start_code_at p j \<and> p ! (j + 3) = PS_STREAM_ID_PACK_HEADER"

definition scan_start :: "bool \<Rightarrow> u8 list \<Rightarrow> nat" where
  "scan_start cdxa p = (if cdxa \<and> 48 \<le> length p \<and> cdxa_padding p then 48 else 0)"

text \<open>The bytes of the stream from the read position on.\<close>

definition stream_rest :: "stream_t \<Rightarrow> u8 list" where
  "stream_rest st = drop (s_pos st) (s_data st)"

text \<open>
  The helpers of \<^verbatim>\<open>ps.h\<close> that work on tracks leave the block flags of every track
  as they are; and from one demuxer to another the flags of every track are kept
  or cleared, so that no track is newly marked.
\<close>

definition helpers_keep_flags :: "ps_env \<Rightarrow> bool" where
  "helpers_keep_flags env \<longleftrightarrow>
     (\<forall>p m tks i. i_next_block_flags (snd (snd (ps_pkt_parse_system env p m tks)) i) =
        i_next_block_flags (tks i)) \<and>
     (\<forall>m p tks evs i. i_next_block_flags (fst (snd (ps_psm_fill env m p tks evs)) i) =
        i_next_block_flags (tks i)) \<and>
     (\<forall>t m pid p. i_next_block_flags (snd (ps_track_fill env t m pid p)) = i_next_block_flags t)"

definition flags_kept :: "demux_t \<Rightarrow> demux_t \<Rightarrow> bool" where
  "flags_kept d d' \<longleftrightarrow>
     (\<forall>i. i_next_block_flags (tk (p_sys d') i) = i_next_block_flags (tk (p_sys d) i) \<or>
          i_next_block_flags (tk (p_sys d') i) = 0)"

subsection \<open>Helper lemmas\<close>

lemma start_code_at_cong:
  assumes "\<And>j. j < 4 \<Longrightarrow> q ! (i + j) = p ! (k + j)"
  shows "start_code_at q i = start_code_at p k"
  using assms [of 0] assms [of 1] assms [of 2] assms [of 3] by (simp add: start_code_at_def)

lemma resynch_loop_found:
  "resynch_loop cdxa pack p n = (True, k) \<Longrightarrow>
     n \<le> k \<and> (k - n) + 4 \<le> length p \<and> start_code_at p (k - n) \<and>
     (pack \<longrightarrow> p ! (k - n + 3) = PS_STREAM_ID_PACK_HEADER)"
proof (induction cdxa pack p n rule: resynch_loop.induct)
  case (1 cdxa pack p n)
  have step: "n + m \<le> k \<and> (k - (n + m)) + 4 \<le> length (drop m p) \<and>
      start_code_at (drop m p) (k - (n + m)) \<and>
      (pack \<longrightarrow> drop m p ! (k - (n + m) + 3) = PS_STREAM_ID_PACK_HEADER) \<Longrightarrow> m \<le> length p \<Longrightarrow>
    n \<le> k \<and> (k - n) + 4 \<le> length p \<and> start_code_at p (k - n) \<and>
     (pack \<longrightarrow> p ! (k - n + 3) = PS_STREAM_ID_PACK_HEADER)" for m
  proof -
    assume a: "n + m \<le> k \<and> (k - (n + m)) + 4 \<le> length (drop m p) \<and>
      start_code_at (drop m p) (k - (n + m)) \<and>
      (pack \<longrightarrow> drop m p ! (k - (n + m) + 3) = PS_STREAM_ID_PACK_HEADER)" and m: "m \<le> length p"
    define j where "j = k - (n + m)"
    have e: "k - n = m + j" using a by (simp add: j_def)
    have "start_code_at (drop m p) j = start_code_at p (m + j)"
      by (rule start_code_at_cong) (simp add: m add.assoc)
    moreover have "drop m p ! (j + 3) = p ! (m + j + 3)"
      by (simp add: m add.assoc)
    ultimately show ?thesis using a m unfolding e j_def [symmetric] by auto
  qed
  show ?case
  proof (cases "length p < 4")
    case True
    with 1(3) show ?thesis by (simp add: resynch_loop.simps)
  next
    case len: False
    show ?thesis
    proof (cases "cdxa \<and> n = 0 \<and> 48 \<le> length p \<and> cdxa_padding p")
      case True
      with len 1(3) have r: "resynch_loop cdxa pack (drop 48 p) (n + 48) = (True, k)"
        by (subst (asm) resynch_loop.simps) simp
      show ?thesis
        by (rule step [OF 1(1) [OF len True r]]) (use True in simp)
    next
      case nc: False
      show ?thesis
      proof (cases "start_code_at p 0 \<and> (\<not> pack \<or> p ! 3 = PS_STREAM_ID_PACK_HEADER)")
        case True
        with len nc 1(3) have "k = n"
          by (subst (asm) resynch_loop.simps) auto
        with True len show ?thesis by auto
      next
        case ns: False
        with len nc 1(3) have r: "resynch_loop cdxa pack (drop 1 p) (n + 1) = (True, k)"
          by (subst (asm) resynch_loop.simps) auto
        show ?thesis
          by (rule step [OF 1(2) [OF len nc ns r]]) (use len in simp)
      qed
    qed
  qed
qed

lemma NotifyDiscontinuity_fold:
  "fold (\<lambda>i a. a(i := notify_track env (a i))) [0..<n] p_tk i =
     (if i < n then notify_track env (p_tk i) else p_tk i)"
  by (induction n arbitrary: i) simp_all

lemma NotifyDiscontinuity_apply:
  "NotifyDiscontinuity env p_tk i =
     (if i < PS_TK_COUNT env then notify_track env (p_tk i) else p_tk i)"
  by (simp add: NotifyDiscontinuity_def NotifyDiscontinuity_fold)

lemma notify_track_marked:
  "notify_track env t =
     (if marked env t
      then t\<lparr>i_next_block_flags := i_next_block_flags t OR BLOCK_FLAG_DISCONTINUITY\<rparr> else t)"
  by (auto simp add: notify_track_def marked_def split: option.splits)

lemma NotifyDiscontinuity_marked: "discontinuity_marked env tks (NotifyDiscontinuity env tks)"
  by (simp add: discontinuity_marked_def NotifyDiscontinuity_apply notify_track_marked)

lemma probe_frame_refl: "probe_frame d d"
  by (simp add: probe_frame_def)

lemma probe_frame_trans: "probe_frame d d' \<Longrightarrow> probe_frame d' d'' \<Longrightarrow> probe_frame d d''"
  by (simp add: probe_frame_def)

lemma probe_frame_stream: "probe_frame d d' \<Longrightarrow> probe_frame d (d'\<lparr>s := st\<rparr>)"
  by (simp add: probe_frame_def)

lemma Demux2_frame:
  "Demux2 env d b_end = (r, d') \<Longrightarrow>
     probe_frame d d' \<and> i_length (p_sys d') = i_length (p_sys d) \<and>
     i_time_track (p_sys d') = i_time_track (p_sys d)"
  by (auto simp add: Demux2_def Let_def probe_frame_def split: prod.splits if_splits option.splits)

lemma Demux2_loop_frame:
  "probe_frame d (Demux2_loop env b_end n d) \<and>
   i_length (p_sys (Demux2_loop env b_end n d)) = i_length (p_sys d) \<and>
   i_time_track (p_sys (Demux2_loop env b_end n d)) = i_time_track (p_sys d)"
proof (induction n arbitrary: d)
  case 0
  show ?case by (simp add: probe_frame_refl)
next
  case (Suc n)
  obtain r d' where e: "Demux2 env d b_end = (r, d')"
    by (cases "Demux2 env d b_end")
  from Demux2_frame [OF e] Suc [of d'] e show ?case
    by (auto intro: probe_frame_trans)
qed

lemma longest_track_fold_frame:
  "\<exists>len tt. fold longest_track_step xs sys = sys\<lparr>i_length := len, i_time_track := tt\<rparr>"
proof (induction xs arbitrary: sys)
  case Nil
  have "sys = sys\<lparr>i_length := i_length sys, i_time_track := i_time_track sys\<rparr>" by simp
  then show ?case by (metis fold_simps(1))
next
  case (Cons x xs)
  have "\<exists>len tt. longest_track_step x sys = sys\<lparr>i_length := len, i_time_track := tt\<rparr>"
  proof (cases "longest_track_step x sys = sys")
    case True
    have "sys = sys\<lparr>i_length := i_length sys, i_time_track := i_time_track sys\<rparr>" by simp
    with True show ?thesis by metis
  next
    case False
    then show ?thesis
      by (auto simp add: longest_track_step_def Let_def split: if_splits)
  qed
  then obtain len tt where e: "longest_track_step x sys = sys\<lparr>i_length := len, i_time_track := tt\<rparr>"
    by blast
  from Cons [of "sys\<lparr>i_length := len, i_time_track := tt\<rparr>"] e show ?case
    by auto
qed

lemma longest_track_frame:
  "\<exists>len tt. longest_track env sys = sys\<lparr>i_length := len, i_time_track := tt\<rparr>"
  by (simp add: longest_track_def longest_track_fold_frame)

lemma probe_frame_longest:
  "probe_frame d d' \<Longrightarrow> probe_frame d (d'\<lparr>p_sys := longest_track env (p_sys d')\<rparr>)"
proof -
  assume a: "probe_frame d d'"
  obtain len tt where "longest_track env (p_sys d') = (p_sys d')\<lparr>i_length := len, i_time_track := tt\<rparr>"
    using longest_track_frame by blast
  with a show ?thesis by (simp add: probe_frame_def)
qed

lemma probe_frame_longest_stream:
  "probe_frame d d' \<Longrightarrow> probe_frame d (d'\<lparr>s := st, p_sys := longest_track env (p_sys d')\<rparr>)"
  using probe_frame_longest [of d "d'\<lparr>s := st\<rparr>" env] probe_frame_stream [of d d' st] by simp

lemma FindLength_frame: "FindLength env d = (ok, d') \<Longrightarrow> probe_frame d d'"
proof -
  assume a: "FindLength env d = (ok, d')"
  let ?d0 = "d\<lparr>p_sys := (p_sys d)\<lparr>i_length := 0\<rparr>\<rparr>"
  let ?d1 = "Demux2_loop env False 40 ?d0"
  have f0: "probe_frame d ?d0" by (simp add: probe_frame_def)
  have f1: "probe_frame d ?d1"
    using f0 Demux2_loop_frame [of ?d0 env False 40] by (blast intro: probe_frame_trans)
  have f2: "probe_frame d (Demux2_loop env True 400 (?d1\<lparr>s := st\<rparr>))" for st
    using probe_frame_stream [OF f1, of st] Demux2_loop_frame [of "?d1\<lparr>s := st\<rparr>" env True 400]
    by (blast intro: probe_frame_trans)
  from a show ?thesis
    by (auto simp add: FindLength_def Let_def probe_frame_refl probe_frame_longest f1 f2
        probe_frame_stream probe_frame_longest_stream
        split: if_splits option.splits)
qed

lemma Demux_sync_frame: "Demux_sync env d = Inr d2 \<Longrightarrow> probe_frame d d2"
proof -
  assume a: "Demux_sync env d = Inr d2"
  obtain i_ret st where r: "ps_pkt_resynch (s d) (b_cdxa (p_sys d)) (b_have_pack (p_sys d)) = (i_ret, st)"
    by (cases "ps_pkt_resynch (s d) (b_cdxa (p_sys d)) (b_have_pack (p_sys d))")
  let ?d1 = "d\<lparr>s := st, p_sys := (p_sys d)\<lparr>b_lost_sync := False\<rparr>\<rparr>"
  have f1: "probe_frame d ?d1" by (simp add: probe_frame_def)
  from a r show ?thesis
    by (auto simp add: Demux_sync_def Let_def f1 split: if_splits prod.splits
        dest!: FindLength_frame intro: probe_frame_trans [OF f1])
qed

lemma Demux_sync_tracks:
  assumes "Demux_sync env d = Inr d2"
    and "\<not> (i_length (p_sys d) = - 1 \<and> b_seekable (p_sys d) \<and> ps_trust_timestamps env)"
  shows "tk (p_sys d2) = tk (p_sys d)"
proof -
  obtain i_ret st where r: "ps_pkt_resynch (s d) (b_cdxa (p_sys d)) (b_have_pack (p_sys d)) = (i_ret, st)"
    by (cases "ps_pkt_resynch (s d) (b_cdxa (p_sys d)) (b_have_pack (p_sys d))")
  let ?d1 = "d\<lparr>s := st, p_sys := (p_sys d)\<lparr>b_lost_sync := False\<rparr>\<rparr>"
  obtain len tt where l: "longest_track env (p_sys ?d1) = (p_sys ?d1)\<lparr>i_length := len, i_time_track := tt\<rparr>"
    using longest_track_frame by blast
  from assms r l show ?thesis
    by (auto simp add: Demux_sync_def FindLength_def Let_def split: if_splits prod.splits)
qed

lemma track_first_sight_seen:
  "track_first_sight env t m pid p_pkt k evs = (t', evs', b_new) \<Longrightarrow> b_seen t'"
  by (auto simp add: track_first_sight_def Let_def split: prod.splits if_splits)

lemma Demux_es_track_seen:
  assumes "Demux_es_track env d p_pkt = (d1, k, b_new)"
  shows "b_seen (tk (p_sys d1) k)"
proof -
  obtain cnt pid where h: "aob_mlp_heuristic (ps_pkt_id env p_pkt) (i_aob_mlp_count (p_sys d)) = (cnt, pid)"
    by (cases "aob_mlp_heuristic (ps_pkt_id env p_pkt) (i_aob_mlp_count (p_sys d))")
  obtain t' evs b where f: "track_first_sight env (tk (p_sys d) (PS_ID_TO_TK env pid)) (psm (p_sys d)) pid
      p_pkt (PS_ID_TO_TK env pid) (out d) = (t', evs, b)"
    by (cases "track_first_sight env (tk (p_sys d) (PS_ID_TO_TK env pid)) (psm (p_sys d)) pid
      p_pkt (PS_ID_TO_TK env pid) (out d)")
  from assms track_first_sight_seen [OF f] show ?thesis
    by (auto simp add: Demux_es_track_def h f Let_def)
qed

text \<open>The definitions a run on a concrete stream unfolds.\<close>

lemmas eval_defs = Demux_def Demux_sync_def Demux_dispatch_def Demux_pack_def Demux_system_def
  Demux_map_def Demux_es_def Demux_es_track_def
  aob_mlp_heuristic_def track_first_sight_def
  Demux_es_scr_def Demux_es_pes_def ps_pkt_resynch_def ps_pkt_read_def vlc_stream_Peek_def
  vlc_stream_Block_def start_code_at_def example_env_def Open_demux_def ps_track_init_def
  ps_psm_init_def engine_run_def engine_step_def Let_def
  VLC_SUCCESS_def VLC_EGENERIC_def VLC_DEMUXER_EOF_def VLC_DEMUXER_EGENERIC_def
  VLC_DEMUXER_SUCCESS_def VLC_TS_INVALID_def VLC_TS_0_def CLOCK_FREQ_def
  PS_STREAM_ID_END_STREAM_def PS_STREAM_ID_PACK_HEADER_def PS_STREAM_ID_SYSTEM_HEADER_def
  PS_STREAM_ID_MAP_def PS_STREAM_ID_PRIVATE_STREAM1_def

lemma longest_track_fold:
  fixes sys :: demux_sys_t
  defines "r n \<equiv> fold longest_track_step [0..<n] sys"
  shows "tk (r n) = tk sys \<and> i_length sys \<le> i_length (r n) \<and>
     (\<forall>i<n. has_span (tk sys i) \<longrightarrow> track_span (tk sys i) \<le> i_length (r n)) \<and>
     ((i_length (r n) = i_length sys \<and> i_time_track (r n) = i_time_track sys) \<or>
      (\<exists>j<n. has_span (tk sys j) \<and> i_time_track (r n) = int j \<and>
         i_length (r n) = track_span (tk sys j)))"
proof (induction n)
  case 0
  show ?case by (simp add: r_def)
next
  case (Suc n)
  have step: "r (Suc n) = longest_track_step n (r n)"
    by (simp add: r_def)
  from Suc have t: "tk (r n) = tk sys" by simp
  show ?case
  proof (cases "has_span (tk sys n) \<and> i_length (r n) < track_span (tk sys n)")
    case True
    then have e: "r (Suc n) = (r n)\<lparr>i_length := track_span (tk sys n), i_time_track := int n\<rparr>"
      by (simp add: step longest_track_step_def Let_def t has_span_def track_span_def)
    from Suc True show ?thesis
      by (auto simp add: e less_Suc_eq)
  next
    case False
    then have e: "r (Suc n) = r n"
      by (auto simp add: step longest_track_step_def Let_def t has_span_def track_span_def)
    from Suc False show ?thesis
      by (auto simp add: e less_Suc_eq)
  qed
qed

lemma FindLength_first:
  assumes "ps_trust_timestamps env" "i_length (p_sys d) = - 1" "FindLength env d = (True, d')"
  shows "\<exists>sys2. p_sys d' = longest_track env sys2 \<and> i_length sys2 = 0 \<and>
           i_time_track sys2 = i_time_track (p_sys d)"
proof -
  let ?d0 = "d\<lparr>p_sys := (p_sys d)\<lparr>i_length := 0\<rparr>\<rparr>"
  let ?d1 = "Demux2_loop env False 40 ?d0"
  have f1: "i_length (p_sys ?d1) = 0 \<and> i_time_track (p_sys ?d1) = i_time_track (p_sys d)"
    using Demux2_loop_frame [of ?d0 env False 40] by simp
  have f2: "i_length (p_sys (Demux2_loop env True 400 (?d1\<lparr>s := st\<rparr>))) = 0 \<and>
            i_time_track (p_sys (Demux2_loop env True 400 (?d1\<lparr>s := st\<rparr>))) = i_time_track (p_sys d)" for st
    using Demux2_loop_frame [of "?d1\<lparr>s := st\<rparr>" env True 400] f1 by simp
  from assms show ?thesis
    by (auto simp add: FindLength_def Let_def f2 split: option.splits if_splits)
qed

lemma same_but_es_refl: "same_but_es t t"
  by (simp add: same_but_es_def)

lemma system_add_step_eligible:
  "system_add_step env i (tks, evs) =
     (if eligible (tks i)
      then (tks(i := (tks i)\<lparr>es := es_out_Add env evs (fmt (tks i))\<rparr>),
            evs @ [ES_OUT_ADD i (es_out_Add env evs (fmt (tks i)))])
      else (tks, evs))"
  by (simp add: system_add_step_def eligible_def Let_def)

lemma system_add_fold:
  "\<exists>tks'. fold (system_add_step env) [0..<n] (tks, evs) =
      (tks', evs @ map (\<lambda>i. ES_OUT_ADD i (es (tks' i))) (filter (\<lambda>i. eligible (tks i)) [0..<n])) \<and>
      (\<forall>i. same_but_es (tks i) (tks' i) \<and> (\<not> (i < n \<and> eligible (tks i)) \<longrightarrow> tks' i = tks i))"
proof (induction n)
  case 0
  show ?case by (simp add: same_but_es_refl)
next
  case (Suc n)
  then obtain tn where f: "fold (system_add_step env) [0..<n] (tks, evs) =
      (tn, evs @ map (\<lambda>i. ES_OUT_ADD i (es (tn i))) (filter (\<lambda>i. eligible (tks i)) [0..<n]))"
    and t1: "\<And>i. same_but_es (tks i) (tn i)"
    and t2: "\<And>i. \<not> (i < n \<and> eligible (tks i)) \<Longrightarrow> tn i = tks i"
    by blast
  have tn: "tn n = tks n" using t2 [of n] by simp
  let ?evs = "evs @ map (\<lambda>i. ES_OUT_ADD i (es (tn i))) (filter (\<lambda>i. eligible (tks i)) [0..<n])"
  show ?case
  proof (cases "eligible (tks n)")
    case False
    then have "fold (system_add_step env) [0..<Suc n] (tks, evs) =
        (tn, evs @ map (\<lambda>i. ES_OUT_ADD i (es (tn i))) (filter (\<lambda>i. eligible (tks i)) [0..<Suc n]))"
      by (simp add: f system_add_step_eligible tn)
    moreover have "same_but_es (tks i) (tn i) \<and> (\<not> (i < Suc n \<and> eligible (tks i)) \<longrightarrow> tn i = tks i)" for i
      using t1 [of i] t2 [of i] False tn by (cases "i = n") (simp_all add: less_Suc_eq)
    ultimately show ?thesis by blast
  next
    case True
    let ?e = "es_out_Add env ?evs (fmt (tks n))"
    let ?t' = "tn(n := (tks n)\<lparr>es := ?e\<rparr>)"
    have m: "map (\<lambda>i. ES_OUT_ADD i (es (?t' i))) (filter (\<lambda>i. eligible (tks i)) [0..<n])
        = map (\<lambda>i. ES_OUT_ADD i (es (tn i))) (filter (\<lambda>i. eligible (tks i)) [0..<n])"
      by (rule map_cong) auto
    from True have "fold (system_add_step env) [0..<Suc n] (tks, evs) = (?t', ?evs @ [ES_OUT_ADD n ?e])"
      by (simp add: f system_add_step_eligible tn)
    then have "fold (system_add_step env) [0..<Suc n] (tks, evs) =
      (?t', evs @ map (\<lambda>i. ES_OUT_ADD i (es (?t' i))) (filter (\<lambda>i. eligible (tks i)) [0..<Suc n]))"
      using True m by simp
    moreover have "same_but_es (tks i) (?t' i) \<and> (\<not> (i < Suc n \<and> eligible (tks i)) \<longrightarrow> ?t' i = tks i)" for i
      using t1 [of i] t2 [of i] True by (cases "i = n") (simp_all add: less_Suc_eq same_but_es_def)
    ultimately show ?thesis by blast
  qed
qed

lemma system_add_result:
  obtains tks' where "system_add env (tks, evs) =
      (tks', evs @ map (\<lambda>i. ES_OUT_ADD i (es (tks' i)))
                 (filter (\<lambda>i. eligible (tks i)) [0..<PS_TK_COUNT env]))"
    and "\<And>i. same_but_es (tks i) (tks' i)"
    and "\<And>i. \<not> (i < PS_TK_COUNT env \<and> eligible (tks i)) \<Longrightarrow> tks' i = tks i"
  using system_add_fold [of env "PS_TK_COUNT env" tks evs] unfolding system_add_def by blast


lemma Demux_es_track_result:
  obtains cnt pid t' evs scr lscr k b_new where
    "Demux_es_track env d p_pkt =
       (d\<lparr>out := evs,
          p_sys := (p_sys d)\<lparr>i_aob_mlp_count := cnt, tk := (tk (p_sys d))(k := t'),
                    i_scr := scr, i_last_scr := lscr\<rparr>\<rparr>, k, b_new)"
    and "track_first_sight env (tk (p_sys d) k) (psm (p_sys d)) pid p_pkt k (out d) = (t', evs, b_new)"
proof -
  obtain cnt pid where h: "aob_mlp_heuristic (ps_pkt_id env p_pkt) (i_aob_mlp_count (p_sys d)) = (cnt, pid)"
    by (cases "aob_mlp_heuristic (ps_pkt_id env p_pkt) (i_aob_mlp_count (p_sys d))")
  let ?k = "PS_ID_TO_TK env pid"
  obtain t' evs b where f: "track_first_sight env (tk (p_sys d) ?k) (psm (p_sys d)) pid
      p_pkt ?k (out d) = (t', evs, b)"
    by (cases "track_first_sight env (tk (p_sys d) ?k) (psm (p_sys d)) pid p_pkt ?k (out d)")
  let ?sys = "(p_sys d)\<lparr>i_aob_mlp_count := cnt, tk := (tk (p_sys d))(?k := t')\<rparr>"
  show ?thesis
  proof (cases "b_seen t' \<and> (i_codec (fmt t') = VLC_CODEC_OGT \<or> i_codec (fmt t') = VLC_CODEC_CVD)")
    case True
    then have "Demux_es_track env d p_pkt =
       (d\<lparr>out := evs, p_sys := (p_sys d)\<lparr>i_aob_mlp_count := cnt, tk := (tk (p_sys d))(?k := t'),
                    i_scr := - 1, i_last_scr := - 1\<rparr>\<rparr>, ?k, b)"
      by (simp add: Demux_es_track_def h f Let_def)
    then show ?thesis using f by (rule that)
  next
    case False
    then have "Demux_es_track env d p_pkt =
       (d\<lparr>out := evs, p_sys := (p_sys d)\<lparr>i_aob_mlp_count := cnt, tk := (tk (p_sys d))(?k := t'),
                    i_scr := i_scr (p_sys d), i_last_scr := i_last_scr (p_sys d)\<rparr>\<rparr>, ?k, b)"
      by (auto simp add: Demux_es_track_def h f Let_def)
    then show ?thesis using f by (rule that)
  qed
qed

lemma Demux_es_track_frame:
  assumes "Demux_es_track env d p_pkt = (d1, k, b_new)"
  shows "dispatch_frame d d1"
  by (rule Demux_es_track_result [of env d p_pkt]) (use assms in \<open>simp add: dispatch_frame_def\<close>)

lemma Demux_es_scr_frame: "dispatch_frame d (Demux_es_scr d k)"
  by (simp add: Demux_es_scr_def dispatch_frame_def Let_def)

lemma Demux_es_pes_frame: "dispatch_frame d (Demux_es_pes env d k b_new p_pkt)"
  by (simp add: Demux_es_pes_def dispatch_frame_def Let_def split: option.splits prod.splits)

lemma dispatch_frame_trans:
  "dispatch_frame d d' \<Longrightarrow> dispatch_frame d' d'' \<Longrightarrow> dispatch_frame d d''"
  by (simp add: dispatch_frame_def)

lemma Demux_es_frame: "dispatch_frame d (Demux_es env d p_pkt)"
proof -
  obtain d1 k b_new where e: "Demux_es_track env d p_pkt = (d1, k, b_new)"
    by (cases "Demux_es_track env d p_pkt")
  show ?thesis
    unfolding Demux_es_def e prod.case
    by (blast intro: dispatch_frame_trans Demux_es_track_frame [OF e] Demux_es_scr_frame
        Demux_es_pes_frame)
qed

lemma Demux_dispatch_cases:
  assumes "P d" "P (Demux_pack env d p_pkt)" "P (Demux_system env d p_pkt)"
    "P (Demux_map env d p_pkt)" "P (Demux_es env d p_pkt)"
  shows "P (Demux_dispatch env d p_pkt)"
  by (simp add: Demux_dispatch_def Let_def assms)

lemma Demux_dispatch_frame: "dispatch_frame d (Demux_dispatch env d p_pkt)"
proof (rule Demux_dispatch_cases)
  show "dispatch_frame d d" by (simp add: dispatch_frame_def)
  show "dispatch_frame d (Demux_pack env d p_pkt)"
    by (simp add: Demux_pack_def Let_def dispatch_frame_def split: prod.splits)
  show "dispatch_frame d (Demux_system env d p_pkt)"
    by (simp add: Demux_system_def Let_def dispatch_frame_def split: prod.splits)
  show "dispatch_frame d (Demux_map env d p_pkt)"
    by (simp add: Demux_map_def Let_def dispatch_frame_def split: prod.splits)
  show "dispatch_frame d (Demux_es env d p_pkt)" by (rule Demux_es_frame)
qed

lemma notify_track_es: "es (notify_track env t) = es t"
  by (simp add: notify_track_def split: option.splits)

lemma NotifyDiscontinuity_es: "es (NotifyDiscontinuity env tks i) = es (tks i)"
  by (simp add: NotifyDiscontinuity_apply notify_track_es)

lemma longest_track_length: "i_length sys \<le> i_length (longest_track env sys)"
  using longest_track_fold [where sys = sys and n = "PS_TK_COUNT env"]
  by (simp add: longest_track_def)

lemma FindLength_length:
  assumes "ps_trust_timestamps env" "i_length (p_sys d) = - 1" "FindLength env d = (ok, d')"
  shows "0 \<le> i_length (p_sys d')"
proof -
  let ?d0 = "d\<lparr>p_sys := (p_sys d)\<lparr>i_length := 0\<rparr>\<rparr>"
  let ?d1 = "Demux2_loop env False 40 ?d0"
  have f1: "i_length (p_sys ?d1) = 0"
    using Demux2_loop_frame [of ?d0 env False 40] by simp
  have f2: "i_length (p_sys (Demux2_loop env True 400 (?d1\<lparr>s := st\<rparr>))) = 0" for st
    using Demux2_loop_frame [of "?d1\<lparr>s := st\<rparr>" env True 400] f1 by simp
  have f3: "0 \<le> i_length (longest_track env (p_sys (Demux2_loop env True 400 (?d1\<lparr>s := st\<rparr>))))" for st
    using longest_track_length [of "p_sys (Demux2_loop env True 400 (?d1\<lparr>s := st\<rparr>))" env] f2 [of st]
    by simp
  from assms show ?thesis
    by (auto simp add: FindLength_def Let_def f1 f2 f3 split: option.splits if_splits)
qed

lemma past_probe_frame: "past_probe env d \<Longrightarrow> dispatch_frame d d' \<Longrightarrow> past_probe env d'"
  by (simp add: past_probe_def dispatch_frame_def)

lemma Demux_sync_probes:
  assumes "probes_before_sinks env d"
  shows "case Demux_sync env d of
           Inl (r, d') \<Rightarrow> probes_before_sinks env d'
         | Inr d2 \<Rightarrow> past_probe env d2"
proof -
  obtain i_ret st where r: "ps_pkt_resynch (s d) (b_cdxa (p_sys d)) (b_have_pack (p_sys d)) = (i_ret, st)"
    by (cases "ps_pkt_resynch (s d) (b_cdxa (p_sys d)) (b_have_pack (p_sys d))")
  let ?d1 = "d\<lparr>s := st, p_sys := (p_sys d)\<lparr>b_lost_sync := False\<rparr>\<rparr>"
  consider "i_ret < 0" | "i_ret = 0" | "0 < i_ret" "\<not> (i_length (p_sys d) < 0 \<and> b_seekable (p_sys d))"
    | "0 < i_ret" "i_length (p_sys d) < 0" "b_seekable (p_sys d)"
    by linarith
  then show ?thesis
  proof cases
    case 1
    with assms show ?thesis
      by (simp add: Demux_sync_def r probes_before_sinks_def past_probe_def)
  next
    case 2
    with assms show ?thesis
      by (simp add: Demux_sync_def r probes_before_sinks_def past_probe_def NotifyDiscontinuity_es)
  next
    case 3
    with assms show ?thesis
      by (auto simp add: Demux_sync_def r probes_before_sinks_def past_probe_def)
  next
    case 4
    obtain ok d2 where f: "FindLength env ?d1 = (ok, d2)"
      by (cases "FindLength env ?d1")
    from 4 assms have m: "i_length (p_sys d) = - 1"
      by (auto simp add: probes_before_sinks_def past_probe_def)
    show ?thesis
    proof (cases "ps_trust_timestamps env")
      case True
      from FindLength_length [OF True _ f] m have "0 \<le> i_length (p_sys d2)" by simp
      with 4 show ?thesis
        by (simp add: Demux_sync_def r f probes_before_sinks_def past_probe_def)
    next
      case False
      with f have "d2 = ?d1" "ok" by (simp_all add: FindLength_def)
      with 4 m False show ?thesis
        by (simp add: Demux_sync_def r f past_probe_def)
    qed
  qed
qed

lemma Demux_probes:
  assumes "probes_before_sinks env d"
  shows "probes_before_sinks env (snd (Demux env d))"
proof (cases "Demux_sync env d")
  case (Inl a)
  with Demux_sync_probes [OF assms] show ?thesis
    by (cases a) (simp add: Demux_def)
next
  case (Inr d2)
  with Demux_sync_probes [OF assms] have p: "past_probe env d2" by simp
  obtain b st' where rd: "ps_pkt_read (ps_pkt_size env) (s d2) = (b, st')"
    by (cases "ps_pkt_read (ps_pkt_size env) (s d2)")
  have p': "past_probe env (d2\<lparr>s := st'\<rparr>)" using p by (simp add: past_probe_def)
  have "past_probe env (snd (Demux env d))"
  proof (cases b)
    case None
    with p' show ?thesis by (simp add: Demux_def Inr rd)
  next
    case (Some p_pkt)
    with p' past_probe_frame [OF p' Demux_dispatch_frame [of "d2\<lparr>s := st'\<rparr>" env p_pkt]]
    show ?thesis by (simp add: Demux_def Inr rd)
  qed
  then show ?thesis by (simp add: probes_before_sinks_def)
qed

lemma Control_probes:
  assumes "probes_before_sinks env d"
  shows "probes_before_sinks env (snd (snd (Control env q d)))"
  using assms
  by (cases q)
     (auto simp add: Control_def Let_def probes_before_sinks_def past_probe_def
        NotifyDiscontinuity_es split: option.splits prod.splits)

lemma engine_run_probes:
  "probes_before_sinks env d \<Longrightarrow> probes_before_sinks env (engine_run env cs d)"
proof (induction cs arbitrary: d)
  case Nil
  then show ?case by (simp add: engine_run_def)
next
  case (Cons c cs)
  have "probes_before_sinks env (engine_step env c d)"
    using Cons.prems by (cases c) (simp_all add: engine_step_def Demux_probes Control_probes)
  from Cons.IH [OF this] show ?case by (simp add: engine_run_def)
qed

lemma Open_probes: "probes_before_sinks env (Open_demux st cdxa seekable)"
  by (simp add: probes_before_sinks_def Open_demux_def ps_track_init_def)


lemma Demux_sync_flags:
  assumes "Demux_sync env d = Inr d2 \<or> Demux_sync env d = Inl (VLC_DEMUXER_EGENERIC, d2)"
    and "ps_pkt_resynch (s d) (b_cdxa (p_sys d)) (b_have_pack (p_sys d)) = (i_ret, st)" "0 < i_ret"
  shows "probe_frame d d2"
proof -
  let ?d1 = "d\<lparr>s := st, p_sys := (p_sys d)\<lparr>b_lost_sync := False\<rparr>\<rparr>"
  have f1: "probe_frame d ?d1" by (simp add: probe_frame_def)
  from assms show ?thesis
    by (auto simp add: Demux_sync_def Let_def f1 split: if_splits prod.splits
        dest!: FindLength_frame intro: probe_frame_trans [OF f1])
qed

lemma scr_off_refl: "b_bad_scr (p_sys d) \<Longrightarrow> scr_off d d"
  by (simp add: scr_off_def)

lemma scr_off_trans: "scr_off d d' \<Longrightarrow> scr_off d' d'' \<Longrightarrow> scr_off d d''"
  by (simp add: scr_off_def)

lemma scr_off_probe: "b_bad_scr (p_sys d) \<Longrightarrow> probe_frame d d' \<Longrightarrow> scr_off d d'"
  by (simp add: scr_off_def probe_frame_def)

lemma track_first_sight_events:
  "track_first_sight env t m pid p_pkt k evs = (t', evs', b_new) \<Longrightarrow>
     evs' = evs \<or> evs' = evs @ [ES_OUT_ADD k (es t')]"
  by (auto simp add: track_first_sight_def Let_def split: prod.splits if_splits)

lemma Demux_es_track_scr_off:
  assumes "Demux_es_track env d p_pkt = (d1, k, b_new)" and "b_bad_scr (p_sys d)"
  shows "scr_off d d1"
proof (rule Demux_es_track_result [of env d p_pkt])
  fix cnt pid t' evs scr lscr k' b'
  assume e: "Demux_es_track env d p_pkt =
       (d\<lparr>out := evs,
          p_sys := (p_sys d)\<lparr>i_aob_mlp_count := cnt, tk := (tk (p_sys d))(k' := t'),
                    i_scr := scr, i_last_scr := lscr\<rparr>\<rparr>, k', b')"
    and f: "track_first_sight env (tk (p_sys d) k') (psm (p_sys d)) pid p_pkt k' (out d) = (t', evs, b')"
  from track_first_sight_events [OF f] have "filter is_scr_push evs = filter is_scr_push (out d)"
    by auto
  with assms e show ?thesis by (auto simp add: scr_off_def)
qed

lemma Demux_es_scr_off: "b_bad_scr (p_sys d) \<Longrightarrow> Demux_es_scr d k = d"
  by (simp add: Demux_es_scr_def Let_def)

lemma Demux_es_pes_scr_off:
  "b_bad_scr (p_sys d) \<Longrightarrow> scr_off d (Demux_es_pes env d k b_new p_pkt)"
  by (simp add: Demux_es_pes_def scr_off_def Let_def split: option.splits prod.splits)

lemma Demux_es_scr_off_all:
  assumes "b_bad_scr (p_sys d)"
  shows "scr_off d (Demux_es env d p_pkt)"
proof -
  obtain d1 k b_new where e: "Demux_es_track env d p_pkt = (d1, k, b_new)"
    by (cases "Demux_es_track env d p_pkt")
  from Demux_es_track_scr_off [OF e assms] have 1: "scr_off d d1" .
  then have b: "b_bad_scr (p_sys d1)" by (simp add: scr_off_def)
  from Demux_es_pes_scr_off [OF b, of env k b_new p_pkt] 1 show ?thesis
    by (simp add: Demux_es_def e Demux_es_scr_off [OF b] scr_off_def)
qed

lemma filter_scr_push_adds: "filter is_scr_push (map (\<lambda>i. ES_OUT_ADD i (f i)) xs) = []"
  by (induction xs) simp_all

lemma filter_scr_push_calls: "filter is_scr_push (map sink_event cs) = []"
proof (induction cs)
  case (Cons c cs)
  then show ?case by (cases c) simp_all
qed simp

lemma Demux_dispatch_scr_off:
  assumes "b_bad_scr (p_sys d)"
  shows "scr_off d (Demux_dispatch env d p_pkt)"
proof (rule Demux_dispatch_cases)
  show "scr_off d d" using assms by (rule scr_off_refl)
  show "scr_off d (Demux_pack env d p_pkt)"
    using assms by (simp add: Demux_pack_def Let_def scr_off_def split: prod.splits)
  show "scr_off d (Demux_map env d p_pkt)"
    using assms
    by (simp add: Demux_map_def Let_def scr_off_def filter_scr_push_calls split: prod.splits)
  show "scr_off d (Demux_es env d p_pkt)" using assms by (rule Demux_es_scr_off_all)
  show "scr_off d (Demux_system env d p_pkt)"
  proof -
    obtain r m' tks where ps: "ps_pkt_parse_system env p_pkt (psm (p_sys d)) (tk (p_sys d)) = (r, m', tks)"
      by (cases "ps_pkt_parse_system env p_pkt (psm (p_sys d)) (tk (p_sys d))")
    show ?thesis
      by (rule system_add_result [of env tks "out d"])
         (use assms in \<open>simp add: Demux_system_def Let_def ps scr_off_def filter_scr_push_adds\<close>)
  qed
qed

lemma Demux_scr_off:
  assumes "b_bad_scr (p_sys d)"
  shows "scr_off d (snd (Demux env d))"
proof (cases "Demux_sync env d")
  case (Inl a)
  obtain i_ret st where r: "ps_pkt_resynch (s d) (b_cdxa (p_sys d)) (b_have_pack (p_sys d)) = (i_ret, st)"
    by (cases "ps_pkt_resynch (s d) (b_cdxa (p_sys d)) (b_have_pack (p_sys d))")
  let ?d1 = "d\<lparr>s := st, p_sys := (p_sys d)\<lparr>b_lost_sync := False\<rparr>\<rparr>"
  have f1: "probe_frame d ?d1" by (simp add: probe_frame_def)
  from Inl r assms have "scr_off d (snd a)"
    by (auto simp add: Demux_sync_def Let_def scr_off_def split: if_splits prod.splits
        dest!: FindLength_frame simp add: probe_frame_def)
  with Inl show ?thesis by (simp add: Demux_def)
next
  case (Inr d2)
  from Demux_sync_frame [OF Inr] assms have 1: "scr_off d d2" by (rule scr_off_probe [rotated])
  obtain b st' where rd: "ps_pkt_read (ps_pkt_size env) (s d2) = (b, st')"
    by (cases "ps_pkt_read (ps_pkt_size env) (s d2)")
  have 2: "scr_off d (d2\<lparr>s := st'\<rparr>)" using 1 by (simp add: scr_off_def)
  then have b2: "b_bad_scr (p_sys (d2\<lparr>s := st'\<rparr>))" by (simp add: scr_off_def)
  show ?thesis
  proof (cases b)
    case None
    with 2 show ?thesis by (simp add: Demux_def Inr rd)
  next
    case (Some p_pkt)
    from scr_off_trans [OF 2 Demux_dispatch_scr_off [OF b2, of env p_pkt]] 2 Some
    show ?thesis by (simp add: Demux_def Inr rd)
  qed
qed

lemma Control_scr_off:
  assumes "b_bad_scr (p_sys d)"
  shows "scr_off d (snd (snd (Control env q d)))"
  using assms
  by (cases q) (auto simp add: Control_def Let_def scr_off_def split: option.splits prod.splits)

lemma engine_run_scr_off:
  "b_bad_scr (p_sys d) \<Longrightarrow> scr_off d (engine_run env cs d)"
proof (induction cs arbitrary: d)
  case Nil
  then show ?case by (simp add: engine_run_def scr_off_def)
next
  case (Cons c cs)
  have 1: "scr_off d (engine_step env c d)"
    using Cons.prems by (cases c) (simp_all add: engine_step_def Demux_scr_off Control_scr_off)
  then have "b_bad_scr (p_sys (engine_step env c d))" by (simp add: scr_off_def)
  from scr_off_trans [OF 1 Cons.IH [OF this]] show ?case by (simp add: engine_run_def)
qed
























lemma pkt_read_window_Inl:
  "pkt_read_window p i = Inl k \<Longrightarrow>
     i \<le> k \<and> k + 4 \<le> length p \<and> start_code_at p k \<and>
     (\<forall>j. i \<le> j \<and> j < k \<longrightarrow> \<not> start_code_at p j)"
proof (induction p i rule: pkt_read_window.induct)
  case (1 p i)
  show ?case
  proof (cases "i + 4 \<le> length p")
    case False
    with 1(2) show ?thesis by (simp add: pkt_read_window.simps)
  next
    case len: True
    show ?thesis
    proof (cases "start_code_at p i")
      case True
      with len 1(2) have "k = i" by (subst (asm) pkt_read_window.simps) simp
      with True len show ?thesis by auto
    next
      case False
      with len 1(2) have r: "pkt_read_window p (i + 1) = Inl k"
        by (subst (asm) pkt_read_window.simps) simp
      from 1(1) [OF len False r] have ih: "i + 1 \<le> k" "k + 4 \<le> length p" "start_code_at p k"
        "\<And>j. i + 1 \<le> j \<Longrightarrow> j < k \<Longrightarrow> \<not> start_code_at p j"
        by auto
      have "\<not> start_code_at p j" if "i \<le> j" "j < k" for j
      proof (cases "j = i")
        case True
        with False show ?thesis by simp
      next
        case ne: False
        with that have "i + 1 \<le> j" by simp
        from ih(4) [OF this that(2)] show ?thesis .
      qed
      with ih show ?thesis by auto
    qed
  qed
qed

lemma pkt_read_window_Inr:
  "pkt_read_window p i = Inr j \<Longrightarrow>
     i \<le> j \<and> length p < j + 4 \<and> (i + 4 \<le> length p \<longrightarrow> j + 3 = length p) \<and>
     (\<forall>m. i \<le> m \<and> m + 4 \<le> length p \<longrightarrow> \<not> start_code_at p m)"
proof (induction p i rule: pkt_read_window.induct)
  case (1 p i)
  show ?case
  proof (cases "i + 4 \<le> length p")
    case False
    with 1(2) show ?thesis by (auto simp add: pkt_read_window.simps)
  next
    case len: True
    show ?thesis
    proof (cases "start_code_at p i")
      case True
      with len 1(2) show ?thesis by (subst (asm) pkt_read_window.simps) simp
    next
      case False
      with len 1(2) have r: "pkt_read_window p (i + 1) = Inr j"
        by (subst (asm) pkt_read_window.simps) simp
      from 1(1) [OF len False r] have ih: "i + 1 \<le> j" "length p < j + 4"
        "i + 1 + 4 \<le> length p \<Longrightarrow> j + 3 = length p"
        "\<And>m. i + 1 \<le> m \<Longrightarrow> m + 4 \<le> length p \<Longrightarrow> \<not> start_code_at p m"
        by auto
      have "\<not> start_code_at p m" if "i \<le> m" "m + 4 \<le> length p" for m
      proof (cases "m = i")
        case True
        with False show ?thesis by simp
      next
        case ne: False
        with that have "i + 1 \<le> m" by simp
        from ih(4) [OF this that(2)] show ?thesis .
      qed
      moreover have "j + 3 = length p"
      proof (cases "i + 1 + 4 \<le> length p")
        case True
        then show ?thesis by (rule ih(3))
      next
        case False
        with len have "length p = i + 4" by simp
        moreover from r False have "j = i + 1"
          by (subst (asm) pkt_read_window.simps) simp
        ultimately show ?thesis by simp
      qed
      ultimately show ?thesis using ih(1,2) by auto
    qed
  qed
qed

lemma start_code_at_take:
  "j + 4 \<le> n \<Longrightarrow> start_code_at (take n xs) j = start_code_at xs j"
  by (simp add: start_code_at_def)

lemma pkt_read_search_Some:
  "pkt_read_search st i = Some k \<Longrightarrow>
     i \<le> k \<and> k + 4 \<le> length (stream_rest st) \<and> start_code_at (stream_rest st) k \<and>
     (\<forall>j. i \<le> j \<and> j < k \<longrightarrow> \<not> start_code_at (stream_rest st) j)"
proof (induction st i rule: pkt_read_search.induct)
  case (1 st i)
  define p where "p = vlc_stream_Peek st (i + 1024)"
  have p: "p = take (i + 1024) (stream_rest st)" by (simp add: p_def vlc_stream_Peek_def stream_rest_def)
  have lp: "length p \<le> length (stream_rest st)" "length p \<le> i + 1024" by (simp_all add: p)
  from 1(2) have big: "i + 4 < length p"
    by (subst (asm) pkt_read_search.simps) (simp add: p_def [symmetric] Let_def split: if_splits)
  have sc: "start_code_at p j = start_code_at (stream_rest st) j" if "j + 4 \<le> length p" for j
    unfolding p using that lp(2) by (intro start_code_at_take) simp
  show ?case
  proof (cases "pkt_read_window p i")
    case (Inl k')
    with 1(2) big have "k' = k"
      by (subst (asm) pkt_read_search.simps) (simp add: p_def [symmetric] Let_def)
    with pkt_read_window_Inl [OF Inl] have w: "i \<le> k" "k + 4 \<le> length p" "start_code_at p k"
      "\<forall>j. i \<le> j \<and> j < k \<longrightarrow> \<not> start_code_at p j"
      by auto
    have "\<not> start_code_at (stream_rest st) j" if "i \<le> j" "j < k" for j
      using w(4) that sc [of j] w(2) by auto
    moreover have "k + 4 \<le> length (stream_rest st)" using w(2) lp(1) by simp
    ultimately show ?thesis using w sc [of k] by auto
  next
    case (Inr i')
    with 1(2) big have r: "pkt_read_search st i' = Some k"
      by (subst (asm) pkt_read_search.simps) (simp add: p_def [symmetric] Let_def)
    have nb: "\<not> length p \<le> i + 4" using big by simp
    from 1(1) [OF p_def nb Inr r] have ih: "i' \<le> k" "k + 4 \<le> length (stream_rest st)"
      "start_code_at (stream_rest st) k" "\<forall>j. i' \<le> j \<and> j < k \<longrightarrow> \<not> start_code_at (stream_rest st) j"
      by auto
    from pkt_read_window_Inr [OF Inr] big have w: "i \<le> i'" "i' + 3 = length p"
      "\<forall>m. i \<le> m \<and> m + 4 \<le> length p \<longrightarrow> \<not> start_code_at p m"
      by auto
    have "\<not> start_code_at (stream_rest st) j" if "i \<le> j" "j < k" for j
    proof (cases "j < i'")
      case True
      with w that have "j + 4 \<le> length p" by simp
      with w(3) that sc [of j] show ?thesis by auto
    next
      case False
      with ih(4) that show ?thesis by auto
    qed
    with ih w show ?thesis by auto
  qed
qed


lemma pkt_read_search_None:
  "pkt_read_search st i = None \<Longrightarrow> 4 \<le> i \<Longrightarrow>
     (\<forall>j. i \<le> j \<and> j + 4 \<le> length (stream_rest st) \<and> start_code_at (stream_rest st) j \<longrightarrow>
          j + 4 = length (stream_rest st) \<and> (j - i) mod 1021 = 0)"
proof (induction st i rule: pkt_read_search.induct)
  case (1 st i)
  define p where "p = vlc_stream_Peek st (i + 1024)"
  have p: "p = take (i + 1024) (stream_rest st)" by (simp add: p_def vlc_stream_Peek_def stream_rest_def)
  have lp: "length p = min (i + 1024) (length (stream_rest st))" by (simp add: p)
  have sc: "start_code_at p j = start_code_at (stream_rest st) j" if "j + 4 \<le> length p" for j
    unfolding p using that lp by (intro start_code_at_take) simp
  show ?case
  proof (cases "length p \<le> i + 4")
    case True
    with lp have "length (stream_rest st) \<le> i + 4" by simp
    then show ?thesis by auto
  next
    case big: False
    show ?thesis
    proof (cases "pkt_read_window p i")
      case (Inl k)
      with 1(2) big show ?thesis
        by (subst (asm) pkt_read_search.simps) (simp add: p_def [symmetric] Let_def)
    next
      case (Inr i')
      with 1(2) big have r: "pkt_read_search st i' = None"
        by (subst (asm) pkt_read_search.simps) (simp add: p_def [symmetric] Let_def)
      from pkt_read_window_Inr [OF Inr] big have w: "i \<le> i'" "i' + 3 = length p"
        "\<forall>m. i \<le> m \<and> m + 4 \<le> length p \<longrightarrow> \<not> start_code_at p m"
        by auto
      from w 1(3) have i4: "4 \<le> i'" by simp
      note ih = 1(1) [OF p_def big Inr r i4]
      show ?thesis
      proof (intro allI impI)
        fix j
        assume a: "i \<le> j \<and> j + 4 \<le> length (stream_rest st) \<and> start_code_at (stream_rest st) j"
        have nj: "\<not> j + 4 \<le> length p"
        proof
          assume "j + 4 \<le> length p"
          with w(3) a sc [of j] show False by auto
        qed
        with a lp have full: "length p = i + 1024" by simp
        with w(2) have i': "i' = i + 1021" by simp
        from nj full have "i' \<le> j" by (simp add: i')
        with ih a have "j + 4 = length (stream_rest st) \<and> (j - i') mod 1021 = 0" by blast
        moreover have "(j - i) mod 1021 = (j - i') mod 1021"
        proof -
          from \<open>i' \<le> j\<close> have "j - i = (j - i') + 1021" by (simp add: i')
          then show ?thesis by simp
        qed
        ultimately show "j + 4 = length (stream_rest st) \<and> (j - i) mod 1021 = 0" by simp
      qed
    qed
  qed
qed

text \<open>
  Under that condition on the helpers, the packet cases of \<^verbatim>\<open>Demux\<close> mark no track:
  the only writes to the block flags are the clearing after a block is sent and
  \<^verbatim>\<open>NotifyDiscontinuity\<close>.
\<close>

lemma flags_kept_same:
  "(\<And>i. i_next_block_flags (tk (p_sys d') i) = i_next_block_flags (tk (p_sys d) i)) \<Longrightarrow>
     flags_kept d d'"
  by (simp add: flags_kept_def)

lemma flags_kept_trans: "flags_kept d d' \<Longrightarrow> flags_kept d' d'' \<Longrightarrow> flags_kept d d''"
  unfolding flags_kept_def by metis

lemma track_first_sight_flags:
  assumes "helpers_keep_flags env"
    and "track_first_sight env t m pid p_pkt k evs = (t', evs', b_new)"
  shows "i_next_block_flags t' = i_next_block_flags t"
proof -
  obtain r tf where f: "ps_track_fill env t m pid p_pkt = (r, tf)"
    by (cases "ps_track_fill env t m pid p_pkt")
  from assms(1) have "i_next_block_flags (snd (ps_track_fill env t m pid p_pkt)) = i_next_block_flags t"
    by (simp add: helpers_keep_flags_def)
  with f have "i_next_block_flags tf = i_next_block_flags t" by simp
  with assms(2) f show ?thesis
    by (auto simp add: track_first_sight_def Let_def split: if_splits)
qed

lemma Demux_es_track_flags:
  assumes "helpers_keep_flags env" and "Demux_es_track env d p_pkt = (d1, k, b_new)"
  shows "flags_kept d d1"
proof (rule Demux_es_track_result [of env d p_pkt])
  fix cnt pid t' evs scr lscr k' b'
  assume e: "Demux_es_track env d p_pkt =
       (d\<lparr>out := evs,
          p_sys := (p_sys d)\<lparr>i_aob_mlp_count := cnt, tk := (tk (p_sys d))(k' := t'),
                    i_scr := scr, i_last_scr := lscr\<rparr>\<rparr>, k', b')"
    and f: "track_first_sight env (tk (p_sys d) k') (psm (p_sys d)) pid p_pkt k' (out d) = (t', evs, b')"
  from e assms(2) have d1: "d1 = d\<lparr>out := evs,
          p_sys := (p_sys d)\<lparr>i_aob_mlp_count := cnt, tk := (tk (p_sys d))(k' := t'),
                    i_scr := scr, i_last_scr := lscr\<rparr>\<rparr>"
    by simp
  from track_first_sight_flags [OF assms(1) f] show ?thesis
    by (intro flags_kept_same) (simp add: d1)
qed

lemma Demux_es_scr_flags: "flags_kept d (Demux_es_scr d k)"
  by (rule flags_kept_same) (simp add: Demux_es_scr_def Let_def)

lemma Demux_es_pes_flags: "flags_kept d (Demux_es_pes env d k b_new p_pkt)"
  by (simp add: flags_kept_def Demux_es_pes_def Let_def split: option.splits prod.splits)

lemma Demux_es_flags:
  assumes "helpers_keep_flags env"
  shows "flags_kept d (Demux_es env d p_pkt)"
proof -
  obtain d1 k b_new where e: "Demux_es_track env d p_pkt = (d1, k, b_new)"
    by (cases "Demux_es_track env d p_pkt")
  show ?thesis
    unfolding Demux_es_def e prod.case
    by (blast intro: flags_kept_trans Demux_es_track_flags [OF assms e] Demux_es_scr_flags
        Demux_es_pes_flags)
qed

lemma same_but_es_flags: "same_but_es t t' \<Longrightarrow> i_next_block_flags t' = i_next_block_flags t"
  unfolding same_but_es_def
  by (metis ps_track_t.select_convs(4) ps_track_t.surjective ps_track_t.update_convs(5))

lemma Demux_system_flags:
  assumes "helpers_keep_flags env"
  shows "flags_kept d (Demux_system env d p_pkt)"
proof -
  obtain r m' tks where f: "ps_pkt_parse_system env p_pkt (psm (p_sys d)) (tk (p_sys d)) = (r, m', tks)"
    by (cases "ps_pkt_parse_system env p_pkt (psm (p_sys d)) (tk (p_sys d))")
  from assms have "i_next_block_flags
      (snd (snd (ps_pkt_parse_system env p_pkt (psm (p_sys d)) (tk (p_sys d)))) i)
      = i_next_block_flags (tk (p_sys d) i)" for i
    by (simp add: helpers_keep_flags_def)
  with f have h: "i_next_block_flags (tks i) = i_next_block_flags (tk (p_sys d) i)" for i
    by simp
  show ?thesis
  proof (rule system_add_result [of env tks "out d"])
    fix tks'
    assume sa: "system_add env (tks, out d) =
          (tks', out d @ map (\<lambda>i. ES_OUT_ADD i (es (tks' i)))
                          (filter (\<lambda>i. eligible (tks i)) [0..<PS_TK_COUNT env]))"
      and sb: "\<And>i. same_but_es (tks i) (tks' i)"
    from same_but_es_flags [OF sb] h
    have "i_next_block_flags (tks' i) = i_next_block_flags (tk (p_sys d) i)" for i by simp
    with h show ?thesis
      by (intro flags_kept_same) (simp add: Demux_system_def Let_def f sa)
  qed
qed

lemma Demux_map_flags:
  assumes "helpers_keep_flags env"
  shows "flags_kept d (Demux_map env d p_pkt)"
proof -
  obtain m' tks calls
    where f: "ps_psm_fill env (psm (p_sys d)) p_pkt (tk (p_sys d)) (out d) = (m', tks, calls)"
    by (cases "ps_psm_fill env (psm (p_sys d)) p_pkt (tk (p_sys d)) (out d)")
  from assms have "i_next_block_flags
      (fst (snd (ps_psm_fill env (psm (p_sys d)) p_pkt (tk (p_sys d)) (out d))) i)
      = i_next_block_flags (tk (p_sys d) i)" for i
    by (simp add: helpers_keep_flags_def)
  with f show ?thesis
    by (intro flags_kept_same) (simp add: Demux_map_def Let_def)
qed

lemma Demux_pack_flags: "flags_kept d (Demux_pack env d p_pkt)"
  by (rule flags_kept_same) (simp add: Demux_pack_def Let_def split: prod.splits)

lemma Demux_dispatch_flags:
  assumes "helpers_keep_flags env"
  shows "flags_kept d (Demux_dispatch env d p_pkt)"
proof (rule Demux_dispatch_cases)
  show "flags_kept d d" by (rule flags_kept_same) simp
qed (rule Demux_pack_flags Demux_system_flags [OF assms] Demux_map_flags [OF assms]
       Demux_es_flags [OF assms])+

lemma Demux_regain_flags:
  assumes "helpers_keep_flags env"
    and "ps_pkt_resynch (s d) (b_cdxa (p_sys d)) (b_have_pack (p_sys d)) = (i_ret, st)" "0 < i_ret"
  shows "flags_kept d (snd (Demux env d))"
proof (cases "Demux_sync env d")
  case (Inl a)
  obtain c d' where a: "a = (c, d')" by (cases a)
  from Inl a assms(2,3) have "Demux_sync env d = Inl (VLC_DEMUXER_EGENERIC, d')"
    by (auto simp add: Demux_sync_def Let_def split: if_splits prod.splits)
  then have "Demux_sync env d = Inr d' \<or> Demux_sync env d = Inl (VLC_DEMUXER_EGENERIC, d')" ..
  from Demux_sync_flags [OF this assms(2,3)] have "flags_kept d d'"
    by (intro flags_kept_same) (simp add: probe_frame_def)
  with Inl a show ?thesis by (simp add: Demux_def)
next
  case (Inr d2)
  from Demux_sync_frame [OF Inr] have 1: "flags_kept d d2"
    by (intro flags_kept_same) (simp add: probe_frame_def)
  obtain b st' where rd: "ps_pkt_read (ps_pkt_size env) (s d2) = (b, st')"
    by (cases "ps_pkt_read (ps_pkt_size env) (s d2)")
  have 2: "flags_kept d (d2\<lparr>s := st'\<rparr>)" using 1 by (simp add: flags_kept_def)
  show ?thesis
  proof (cases b)
    case None
    with 2 show ?thesis by (simp add: Demux_def Inr rd)
  next
    case (Some p_pkt)
    from flags_kept_trans [OF 2 Demux_dispatch_flags [OF assms(1), where p_pkt = p_pkt]] 2 Some
    show ?thesis by (simp add: Demux_def Inr rd)
  qed
qed

lemma pack_header_at_drop:
  assumes "m + j + 4 \<le> length p"
  shows "pack_header_at (drop m p) j = pack_header_at p (m + j)"
proof -
  have "start_code_at (drop m p) j = start_code_at p (m + j)"
    by (rule start_code_at_cong) (use assms in \<open>simp add: add.assoc\<close>)
  moreover have "drop m p ! (j + 3) = p ! (m + j + 3)"
    using assms by (simp add: add.assoc)
  ultimately show ?thesis by (simp add: pack_header_at_def)
qed

lemma resynch_loop_scan:
  "resynch_loop cdxa True p n = (found, k) \<Longrightarrow>
     n + (if n = 0 then scan_start cdxa p else 0) \<le> k \<and> k - n \<le> length p \<and>
     (\<forall>j. (if n = 0 then scan_start cdxa p else 0) \<le> j \<and> j < k - n \<and> j + 4 \<le> length p \<longrightarrow>
          \<not> pack_header_at p j) \<and>
     (if found then (k - n) + 4 \<le> length p \<and> pack_header_at p (k - n)
      else length p < (k - n) + 4)"
proof (induction cdxa True p n rule: resynch_loop.induct)
  case (1 cdxa p n)
  show ?case
  proof (cases "length p < 4")
    case True
    with 1(3) show ?thesis by (simp add: resynch_loop.simps scan_start_def)
  next
    case len: False
    show ?thesis
    proof (cases "cdxa \<and> n = 0 \<and> 48 \<le> length p \<and> cdxa_padding p")
      case True
      with len 1(3) have r: "resynch_loop cdxa True (drop 48 p) (n + 48) = (found, k)"
        by (subst (asm) resynch_loop.simps) simp
      from True have n0: "n = 0" by simp
      note raw = 1(1) [OF len True r, unfolded n0]
      from raw have ih: "48 \<le> k" "k - 48 \<le> length p - 48"
        "\<And>j. j < k - 48 \<Longrightarrow> j + 4 \<le> length p - 48 \<Longrightarrow> \<not> pack_header_at (drop 48 p) j"
        by simp_all
      from raw have ihf: "found \<Longrightarrow> (k - 48) + 4 \<le> length p - 48 \<and> pack_header_at (drop 48 p) (k - 48)"
        and ihn: "\<not> found \<Longrightarrow> length p - 48 < (k - 48) + 4"
        by (auto split: if_splits)
      have c: "scan_start cdxa p = 48" using True by (simp add: scan_start_def)
      have a: "\<not> pack_header_at p j" if "48 \<le> j" "j < k" "j + 4 \<le> length p" for j
      proof -
        from that ih(3) [of "j - 48"] have "\<not> pack_header_at (drop 48 p) (j - 48)" by simp
        with pack_header_at_drop [of 48 "j - 48" p] that show ?thesis by simp
      qed
      have b: "if found then k + 4 \<le> length p \<and> pack_header_at p k else length p < k + 4"
      proof (cases found)
        case f: True
        from ihf [OF f] have g: "(k - 48) + 4 \<le> length p - 48" "pack_header_at (drop 48 p) (k - 48)"
          by simp_all
        from g(1) ih(1) True have l: "48 + (k - 48) + 4 \<le> length p" by simp
        from pack_header_at_drop [OF l] g(2) l ih(1) f show ?thesis by simp
      next
        case f: False
        from ihn [OF f] ih(1) True f show ?thesis by simp
      qed
      show ?thesis unfolding n0 c using True ih(1,2) a b by auto
    next
      case nc: False
      then have c: "(if n = 0 then scan_start cdxa p else 0) = 0"
        by (auto simp add: scan_start_def)
      show ?thesis
      proof (cases "start_code_at p 0 \<and> p ! 3 = PS_STREAM_ID_PACK_HEADER")
        case True
        with len nc 1(3) have "k = n" "found"
          by (subst (asm) resynch_loop.simps; auto)+
        with True len show ?thesis by (simp add: c pack_header_at_def)
      next
        case ns: False
        with len nc 1(3) have r: "resynch_loop cdxa True (drop 1 p) (n + 1) = (found, k)"
          by (subst (asm) resynch_loop.simps) auto
        from ns have ns': "\<not> (start_code_at p 0 \<and> (\<not> True \<or> p ! 3 = PS_STREAM_ID_PACK_HEADER))"
          by simp
        note raw = 1(2) [OF len nc ns' r]
        from raw have ih: "n + 1 \<le> k" "k - (n + 1) \<le> length p - 1"
          "\<And>j. j < k - (n + 1) \<Longrightarrow> j + 4 \<le> length p - 1 \<Longrightarrow> \<not> pack_header_at (drop 1 p) j"
          by simp_all
        from raw have ihf: "found \<Longrightarrow> (k - (n + 1)) + 4 \<le> length p - 1 \<and>
              pack_header_at (drop 1 p) (k - (n + 1))"
          and ihn: "\<not> found \<Longrightarrow> length p - 1 < (k - (n + 1)) + 4"
          by (auto split: if_splits)
        have a: "\<not> pack_header_at p j" if "j < k - n" "j + 4 \<le> length p" for j
        proof (cases j)
          case 0
          with ns show ?thesis by (simp add: pack_header_at_def)
        next
          case (Suc i)
          with that ih(3) [of i] have "\<not> pack_header_at (drop 1 p) i" by simp
          with pack_header_at_drop [of 1 i p] that Suc show ?thesis by simp
        qed
        have b: "if found then (k - n) + 4 \<le> length p \<and> pack_header_at p (k - n)
                 else length p < (k - n) + 4"
        proof (cases found)
          case f: True
          from ihf [OF f] have g: "(k - (n + 1)) + 4 \<le> length p - 1"
            "pack_header_at (drop 1 p) (k - (n + 1))"
            by simp_all
          from ih(1) have e: "k - n = 1 + (k - (n + 1))" by simp
          from g(1) len have l: "1 + (k - (n + 1)) + 4 \<le> length p" by simp
          from pack_header_at_drop [OF l] g(2) l f show ?thesis
            unfolding e by simp
        next
          case f: False
          from ihn [OF f] ih(1) len f show ?thesis by simp
        qed
        from ih(1,2) len a b show ?thesis unfolding c by auto
      qed
    qed
  qed
qed

lemma resynch_scan_result:
  assumes l: "resynch_loop cdxa pack (vlc_stream_Peek st 512) 0 = (found, k)"
    and k: "k \<le> length (vlc_stream_Peek st 512)"
    and n: "length (vlc_stream_Peek st 4) = 4" "\<not> start_code_at (vlc_stream_Peek st 4) 0"
  shows "ps_pkt_resynch st cdxa pack = (if found then 1 else 0, st\<lparr>s_pos := s_pos st + k\<rparr>)"
proof -
  from n(1) have "4 \<le> length (s_data st) - s_pos st"
    by (simp add: vlc_stream_Peek_def)
  then have 1: "\<not> length (vlc_stream_Peek st 512) < 4"
    by (simp add: vlc_stream_Peek_def)
  from k have 2: "length (vlc_stream_Peek st k) = k"
    by (simp add: vlc_stream_Peek_def)
  from n 1 show ?thesis
    by (simp add: ps_pkt_resynch_def Let_def l vlc_stream_Read_def 2)
qed


subsection \<open>The resynchroniser in must-be-pack mode\<close>

text \<open>
  C4, as the code has it. Let \<open>p\<close> be the bytes (at most 512) that
  \<^verbatim>\<open>ps_pkt_resynch\<close> peeks.
  \<^item> When the stream is positioned at a valid header on entry, the function
    returns 1 at once and consumes nothing, whatever the id of the header and
    whatever \<^verbatim>\<open>b_pack\<close>: the first test of the function does not look at \<^verbatim>\<open>b_pack\<close>.
  \<^item> Otherwise, with \<^verbatim>\<open>b_pack\<close> set, the function scans \<open>p\<close> from \<open>scan_start\<close> on, and
    there is an offset \<open>k\<close> below which no pack header stands, such that either
    a pack header stands at \<open>k\<close> and the function returns 1 with the stream
    advanced by \<open>k\<close>, or fewer than four bytes are left at \<open>k\<close> and the function
    returns 0 with the stream advanced by \<open>k\<close>. So every valid header with
    another id is passed over and the scan goes on: the function returns 1 at
    the first pack header, and 0 when there is none, whatever other headers
    \<open>p\<close> holds.
  \<^item> Whenever the function returns 1 after a scan, the stream is positioned at a
    valid start code whose id is the pack header id 0xBA.
\<close>

theorem resynch_must_be_pack:
  fixes st :: stream_t and cdxa :: bool
  defines "p \<equiv> vlc_stream_Peek st 512"
  shows
    "(\<forall>pack. length (vlc_stream_Peek st 4) = 4 \<and> start_code_at (vlc_stream_Peek st 4) 0 \<longrightarrow>
        ps_pkt_resynch st cdxa pack = (1, st)) \<and>
     (length (vlc_stream_Peek st 4) = 4 \<and> \<not> start_code_at (vlc_stream_Peek st 4) 0 \<longrightarrow>
        (\<exists>k. scan_start cdxa p \<le> k \<and> k \<le> length p \<and>
           (\<forall>j. scan_start cdxa p \<le> j \<and> j < k \<and> j + 4 \<le> length p \<longrightarrow> \<not> pack_header_at p j) \<and>
           ((k + 4 \<le> length p \<and> pack_header_at p k \<and>
             ps_pkt_resynch st cdxa True = (1, st\<lparr>s_pos := s_pos st + k\<rparr>)) \<or>
            (length p < k + 4 \<and>
             ps_pkt_resynch st cdxa True = (0, st\<lparr>s_pos := s_pos st + k\<rparr>))))) \<and>
     (\<forall>st'. ps_pkt_resynch st cdxa True = (1, st') \<and> \<not> start_code_at (vlc_stream_Peek st 4) 0 \<longrightarrow>
        length (vlc_stream_Peek st' 4) = 4 \<and> start_code_at (vlc_stream_Peek st' 4) 0 \<and>
        vlc_stream_Peek st' 4 ! 3 = PS_STREAM_ID_PACK_HEADER)"
proof -
  have entry: "ps_pkt_resynch st cdxa pack = (1, st)"
    if "length (vlc_stream_Peek st 4) = 4 \<and> start_code_at (vlc_stream_Peek st 4) 0" for pack
    using that by (simp add: ps_pkt_resynch_def)
  have scan: "\<exists>k. scan_start cdxa p \<le> k \<and> k \<le> length p \<and>
           (\<forall>j. scan_start cdxa p \<le> j \<and> j < k \<and> j + 4 \<le> length p \<longrightarrow> \<not> pack_header_at p j) \<and>
           ((k + 4 \<le> length p \<and> pack_header_at p k \<and>
             ps_pkt_resynch st cdxa True = (1, st\<lparr>s_pos := s_pos st + k\<rparr>)) \<or>
            (length p < k + 4 \<and>
             ps_pkt_resynch st cdxa True = (0, st\<lparr>s_pos := s_pos st + k\<rparr>)))"
    if a: "length (vlc_stream_Peek st 4) = 4 \<and> \<not> start_code_at (vlc_stream_Peek st 4) 0"
  proof -
    obtain found k where l: "resynch_loop cdxa True p 0 = (found, k)"
      by (cases "resynch_loop cdxa True p 0")
    from resynch_loop_scan [OF l]
    have s: "scan_start cdxa p \<le> k" "k \<le> length p"
      "\<forall>j. scan_start cdxa p \<le> j \<and> j < k \<and> j + 4 \<le> length p \<longrightarrow> \<not> pack_header_at p j"
      and f: "found \<Longrightarrow> k + 4 \<le> length p \<and> pack_header_at p k"
      and nf: "\<not> found \<Longrightarrow> length p < k + 4"
      by (simp_all split: if_splits)
    from a l s(2) have r: "ps_pkt_resynch st cdxa True = (if found then 1 else 0, st\<lparr>s_pos := s_pos st + k\<rparr>)"
      unfolding p_def by (intro resynch_scan_result) simp_all
    show ?thesis
    proof (cases found)
      case True
      with s f r show ?thesis by (intro exI [of _ k]) simp
    next
      case False
      with s nf r show ?thesis by (intro exI [of _ k]) simp
    qed
  qed
  have at_pack: "length (vlc_stream_Peek st' 4) = 4 \<and> start_code_at (vlc_stream_Peek st' 4) 0 \<and>
        vlc_stream_Peek st' 4 ! 3 = PS_STREAM_ID_PACK_HEADER"
    if a: "ps_pkt_resynch st cdxa True = (1, st') \<and> \<not> start_code_at (vlc_stream_Peek st 4) 0"
    for st'
  proof -
    obtain found k where l: "resynch_loop cdxa True p 0 = (found, k)"
      by (cases "resynch_loop cdxa True p 0")
    from a l have f: "found" and st': "st' = st\<lparr>s_pos := s_pos st + length (vlc_stream_Peek st k)\<rparr>"
      by (auto simp add: ps_pkt_resynch_def Let_def p_def vlc_stream_Read_def split: if_splits)
    from resynch_loop_found [of cdxa True p 0 k] l f
    have b: "k + 4 \<le> length p" "start_code_at p k" "p ! (k + 3) = PS_STREAM_ID_PACK_HEADER"
      by auto
    from b(1) have len: "s_pos st + k + 4 \<le> length (s_data st)" "k + 4 \<le> 512"
      by (auto simp add: p_def vlc_stream_Peek_def)
    then have pk: "length (vlc_stream_Peek st k) = k"
      by (simp add: vlc_stream_Peek_def)
    have nth: "vlc_stream_Peek st' 4 ! (0 + j) = p ! (k + j)" if "j < 4" for j
      using len that by (simp add: st' pk p_def vlc_stream_Peek_def add.assoc)
    have "length (vlc_stream_Peek st' 4) = 4"
      using len by (simp add: st' pk vlc_stream_Peek_def)
    moreover have "start_code_at (vlc_stream_Peek st' 4) 0 = start_code_at p k"
      by (rule start_code_at_cong) (rule nth)
    moreover have "vlc_stream_Peek st' 4 ! 3 = PS_STREAM_ID_PACK_HEADER"
      using b(3) nth [of 3] by simp
    ultimately show ?thesis
      using b(2) by simp
  qed
  from entry scan at_pack show ?thesis by blast
qed

text \<open>
  A byte of garbage, then a video header, which is passed over, then a pack
  header: the scan stops at the pack header, five bytes on. Without the pack
  header the video header is passed over all the same and the function returns
  0. Positioned at the video header on entry, the function returns 1 and stays
  there.
\<close>

theorem resynch_must_be_pack_witness:
  "ps_pkt_resynch scan_stream False True = (1, scan_stream\<lparr>s_pos := 5\<rparr>) \<and>
   length (vlc_stream_Peek scan_stream 4) = 4 \<and>
   \<not> start_code_at (vlc_stream_Peek scan_stream 4) 0 \<and>
   start_code_at (vlc_stream_Peek scan_stream 512) 1 \<and>
   \<not> pack_header_at (vlc_stream_Peek scan_stream 512) 1 \<and>
   pack_header_at (vlc_stream_Peek scan_stream 512) 5 \<and>
   vlc_stream_Peek (scan_stream\<lparr>s_pos := 5\<rparr>) 4 ! 3 = PS_STREAM_ID_PACK_HEADER \<and>
   ps_pkt_resynch no_pack_stream False True = (0, no_pack_stream\<lparr>s_pos := 4\<rparr>) \<and>
   start_code_at (vlc_stream_Peek no_pack_stream 512) 1 \<and>
   start_code_at (vlc_stream_Peek (scan_stream\<lparr>s_pos := 1\<rparr>) 4) 0 \<and>
   ps_pkt_resynch (scan_stream\<lparr>s_pos := 1\<rparr>) False True = (1, scan_stream\<lparr>s_pos := 1\<rparr>)"
proof -
  have r: "ps_pkt_resynch scan_stream False True = (1, scan_stream\<lparr>s_pos := 5\<rparr>)"
    "ps_pkt_resynch no_pack_stream False True = (0, no_pack_stream\<lparr>s_pos := 4\<rparr>)"
    by (simp_all add: ps_pkt_resynch_def vlc_stream_Peek_def vlc_stream_Read_def start_code_at_def
        resynch_loop.simps PS_STREAM_ID_END_STREAM_def PS_STREAM_ID_PACK_HEADER_def
        scan_stream_def no_pack_stream_def)
  have n: "length (vlc_stream_Peek scan_stream 4) = 4"
    "\<not> start_code_at (vlc_stream_Peek scan_stream 4) 0"
    "start_code_at (vlc_stream_Peek scan_stream 512) 1"
    "start_code_at (vlc_stream_Peek no_pack_stream 512) 1"
    "length (vlc_stream_Peek (scan_stream\<lparr>s_pos := 1\<rparr>) 4) = 4"
    "start_code_at (vlc_stream_Peek (scan_stream\<lparr>s_pos := 1\<rparr>) 4) 0"
    by (simp_all add: vlc_stream_Peek_def start_code_at_def scan_stream_def no_pack_stream_def
        PS_STREAM_ID_END_STREAM_def)
  have q: "\<not> pack_header_at (vlc_stream_Peek scan_stream 512) 1"
    by (simp add: pack_header_at_def vlc_stream_Peek_def scan_stream_def
        PS_STREAM_ID_PACK_HEADER_def)
  from resynch_must_be_pack [of scan_stream False] n(1,2) r(1)
  obtain k where k: "k + 4 \<le> length (vlc_stream_Peek scan_stream 512)"
      "pack_header_at (vlc_stream_Peek scan_stream 512) k"
      "(1 :: int, scan_stream\<lparr>s_pos := 5\<rparr>) = (1, scan_stream\<lparr>s_pos := s_pos scan_stream + k\<rparr>)"
    by auto
  from k(3) have "s_pos (scan_stream\<lparr>s_pos := 5\<rparr>) = s_pos (scan_stream\<lparr>s_pos := s_pos scan_stream + k\<rparr>)"
    by simp
  then have "k = 5" by (simp add: scan_stream_def)
  with k(2) have 1: "pack_header_at (vlc_stream_Peek scan_stream 512) 5" by simp
  from resynch_must_be_pack [of scan_stream False] n(2) r(1)
  have 2: "vlc_stream_Peek (scan_stream\<lparr>s_pos := 5\<rparr>) 4 ! 3 = PS_STREAM_ID_PACK_HEADER"
    by blast
  from resynch_must_be_pack [of "scan_stream\<lparr>s_pos := 1\<rparr>" False] n(5,6)
  have 3: "ps_pkt_resynch (scan_stream\<lparr>s_pos := 1\<rparr>) False True = (1, scan_stream\<lparr>s_pos := 1\<rparr>)"
    by blast
  from r n q 1 2 3 show ?thesis by simp
qed

text \<open>
  C4 as stated fails: with \<^verbatim>\<open>b_pack\<close> set and the stream positioned at the video
  header \<^verbatim>\<open>00 00 01 E0\<close>, the function returns 1 and stays at that header.
\<close>

theorem resynch_in_sync_counterexample:
  "ps_pkt_resynch \<lparr>s_data = [0, 0, 1, 0xE0], s_pos = 0\<rparr> False True
     = (1, \<lparr>s_data = [0, 0, 1, 0xE0], s_pos = 0\<rparr>) \<and>
   start_code_at (vlc_stream_Peek \<lparr>s_data = [0, 0, 1, 0xE0], s_pos = 0\<rparr> 4) 0 \<and>
   vlc_stream_Peek \<lparr>s_data = [0, 0, 1, 0xE0], s_pos = 0\<rparr> 4 ! 3 \<noteq> PS_STREAM_ID_PACK_HEADER"
  by (simp add: ps_pkt_resynch_def vlc_stream_Peek_def start_code_at_def
      PS_STREAM_ID_END_STREAM_def PS_STREAM_ID_PACK_HEADER_def)

subsection \<open>The search for the next start code\<close>

text \<open>
  C5. The stream holds a PES header of declared length 0 (size 6, id 0xE0) and
  then the end code \<^verbatim>\<open>00 00 01 B9\<close> as its last four bytes: the next valid start
  code is at offset 6, so a buffer of 6 bytes is due. The first peek returns all
  10 bytes and the test \<^verbatim>\<open>i_peek <= i_size + 4\<close> gives up before the window is
  searched, although its \<^verbatim>\<open>while( i_size <= i_peek - 4 )\<close> would have looked at
  offset 6: \<^verbatim>\<open>ps_pkt_read\<close> returns the null pointer and consumes nothing.
\<close>

theorem pkt_read_last_start_code:
  "ps_pkt_read (\<lambda>p. 6 + 256 * uint (p ! 4) + uint (p ! 5))
     \<lparr>s_data = [0, 0, 1, 0xE0, 0, 0, 0, 0, 1, 0xB9], s_pos = 0\<rparr>
     = (None, \<lparr>s_data = [0, 0, 1, 0xE0, 0, 0, 0, 0, 1, 0xB9], s_pos = 0\<rparr>) \<and>
   start_code_at [0, 0, 1, 0xE0, 0, 0, 0, 0, 1, 0xB9] 6"
  by (simp add: ps_pkt_read_def vlc_stream_Peek_def pkt_read_search.simps start_code_at_def
      PS_STREAM_ID_END_STREAM_def PS_STREAM_ID_PACK_HEADER_def)

text \<open>
  Apart from that, the search does what C5 says, with "next" read as the first
  offset from 6 on, after the six bytes of the header: on a stream of at least
  four bytes at a header of an id above 0xBA for which \<^verbatim>\<open>ps_pkt_size\<close> gives at most
  6, a packet returned has as many bytes as the offset of the first valid start
  code from offset 6 on, and the stream is that many bytes further. The null pointer
  is returned when there is no valid start code from offset 6 on, or when the
  only one fills the last four bytes of the stream and stands at an offset
  \<open>6 + 1021 m\<close>, where a window of the search begins.
\<close>

lemma pkt_read_next_start_code:
  assumes "4 \<le> length (stream_rest st)" and "pkt_size (vlc_stream_Peek st 14) \<le> 6"
    and "PS_STREAM_ID_PACK_HEADER < stream_rest st ! 3"
  shows "case ps_pkt_read pkt_size st of
           (Some b, st') \<Rightarrow>
             (\<exists>k. 6 \<le> k \<and> k + 4 \<le> length (stream_rest st) \<and> start_code_at (stream_rest st) k \<and>
                  (\<forall>j. 6 \<le> j \<and> j < k \<longrightarrow> \<not> start_code_at (stream_rest st) j) \<and>
                  p_buffer b = take k (stream_rest st) \<and> length (p_buffer b) = k \<and>
                  st' = st\<lparr>s_pos := s_pos st + k\<rparr>)
         | (None, st') \<Rightarrow>
             st' = st \<and>
             (\<forall>j. 6 \<le> j \<and> j + 4 \<le> length (stream_rest st) \<and> start_code_at (stream_rest st) j \<longrightarrow>
                  j + 4 = length (stream_rest st) \<and> (j - 6) mod 1021 = 0)"
proof -
  have p: "vlc_stream_Peek st 14 = take 14 (stream_rest st)"
    by (simp add: vlc_stream_Peek_def stream_rest_def)
  from assms(1) have l: "\<not> length (vlc_stream_Peek st 14) < 4" and n: "vlc_stream_Peek st 14 ! 3 = stream_rest st ! 3"
    by (simp_all add: p)
  from assms l n have r: "ps_pkt_read pkt_size st =
      (case pkt_read_search st 6 of None \<Rightarrow> (None, st) | Some k \<Rightarrow> vlc_stream_Block st (int k))"
    by (simp add: ps_pkt_read_def Let_def)
  show ?thesis
  proof (cases "pkt_read_search st 6")
    case None
    from pkt_read_search_None [OF None] None show ?thesis by (simp add: r)
  next
    case (Some k)
    from pkt_read_search_Some [OF Some] have k: "6 \<le> k" "k + 4 \<le> length (stream_rest st)"
      "start_code_at (stream_rest st) k" "\<forall>j. 6 \<le> j \<and> j < k \<longrightarrow> \<not> start_code_at (stream_rest st) j"
      by auto
    from k(1,2) have b: "vlc_stream_Block st (int k) =
        (Some \<lparr>p_buffer = take k (stream_rest st), i_pts = VLC_TS_INVALID, i_flags = 0\<rparr>,
         st\<lparr>s_pos := s_pos st + k\<rparr>)"
      by (auto simp add: vlc_stream_Block_def vlc_stream_Peek_def stream_rest_def Let_def)
    from k show ?thesis by (auto simp add: r Some b)
  qed
qed

subsection \<open>Setting the time\<close>

text \<open>
  C7, as the code has it. With \<open>i_now\<close> the elapsed time (the current time stamp
  less the first time stamp of the time-source track): \<^verbatim>\<open>DEMUX_SET_TIME\<close> with a
  target that is not 0 returns \<^verbatim>\<open>VLC_EGENERIC\<close> and leaves the demuxer and the stream
  as they are when there is no time-source track, when the current time stamp is
  not positive, or when \<open>i_now\<close> is 0. With target 0 it returns \<^verbatim>\<open>VLC_SUCCESS\<close>,
  changing nothing, when there is a time-source track, the current time stamp is
  positive and \<open>i_now\<close> is 0; it returns \<^verbatim>\<open>VLC_EGENERIC\<close> when there is no time-source
  track or the current time stamp is not positive; and when \<open>i_now\<close> is not 0 it
  succeeds exactly when the seek does.
\<close>

theorem set_time_rejected:
  fixes d :: demux_t
  defines "sys \<equiv> p_sys d"
  defines "i_now \<equiv> i_current_pts sys - i_first_pts (tk sys (nat (i_time_track sys)))"
  shows "(i64 \<noteq> 0 \<and> (i_time_track sys < 0 \<or> i_current_pts sys \<le> 0 \<or> i_now = 0) \<longrightarrow>
            Control env (DEMUX_SET_TIME i64) d = (VLC_EGENERIC, No_result, d)) \<and>
         (0 \<le> i_time_track sys \<and> 0 < i_current_pts sys \<and> i_now = 0 \<longrightarrow>
            Control env (DEMUX_SET_TIME 0) d = (VLC_SUCCESS, No_result, d)) \<and>
         (i_time_track sys < 0 \<or> i_current_pts sys \<le> 0 \<longrightarrow>
            Control env (DEMUX_SET_TIME 0) d = (VLC_EGENERIC, No_result, d)) \<and>
         (0 \<le> i_time_track sys \<and> 0 < i_current_pts sys \<and> i_now \<noteq> 0 \<longrightarrow>
            (fst (Control env (DEMUX_SET_TIME 0) d) = VLC_SUCCESS) =
            (vlc_stream_Seek env (s d) (time_offset env (vlc_stream_Tell (s d)) 0 i_now) \<noteq> None))"
  by (auto simp add: Control_def Let_def sys_def i_now_def VLC_SUCCESS_def VLC_EGENERIC_def
      split: option.splits)

text \<open>
  Right after \<^verbatim>\<open>Open\<close> a target of 7 and a target of 0 are both refused; at elapsed
  time 0 (current time stamp 1000 on the track that starts at 1000) the target 7
  is refused and the target 0 succeeds; at elapsed time 2000 the target 0 seeks
  and succeeds.
\<close>

theorem set_time_rejected_witness:
  "Control example_env (DEMUX_SET_TIME 7) (Open_demux \<lparr>s_data = [], s_pos = 0\<rparr> False True)
     = (VLC_EGENERIC, No_result, Open_demux \<lparr>s_data = [], s_pos = 0\<rparr> False True) \<and>
   Control example_env (DEMUX_SET_TIME 7)
      (example_demux\<lparr>p_sys := (p_sys example_demux)\<lparr>i_current_pts := 1000\<rparr>\<rparr>)
     = (VLC_EGENERIC, No_result,
        example_demux\<lparr>p_sys := (p_sys example_demux)\<lparr>i_current_pts := 1000\<rparr>\<rparr>) \<and>
   Control example_env (DEMUX_SET_TIME 0)
      (example_demux\<lparr>p_sys := (p_sys example_demux)\<lparr>i_current_pts := 1000\<rparr>\<rparr>)
     = (VLC_SUCCESS, No_result,
        example_demux\<lparr>p_sys := (p_sys example_demux)\<lparr>i_current_pts := 1000\<rparr>\<rparr>) \<and>
   Control example_env (DEMUX_SET_TIME 0) (Open_demux \<lparr>s_data = [], s_pos = 0\<rparr> False True)
     = (VLC_EGENERIC, No_result, Open_demux \<lparr>s_data = [], s_pos = 0\<rparr> False True) \<and>
   fst (Control example_env (DEMUX_SET_TIME 0) example_demux) = VLC_SUCCESS"
proof -
  let ?o = "Open_demux \<lparr>s_data = [], s_pos = 0\<rparr> False True"
  let ?z = "example_demux\<lparr>p_sys := (p_sys example_demux)\<lparr>i_current_pts := 1000\<rparr>\<rparr>"
  have o: "i_time_track (p_sys ?o) < 0"
    by (simp add: Open_demux_def)
  have z: "0 \<le> i_time_track (p_sys ?z)" "0 < i_current_pts (p_sys ?z)"
    "i_current_pts (p_sys ?z) - i_first_pts (tk (p_sys ?z) (nat (i_time_track (p_sys ?z)))) = 0"
    by (simp_all add: example_demux_def example_track_def)
  have e: "0 \<le> i_time_track (p_sys example_demux)" "0 < i_current_pts (p_sys example_demux)"
    "i_current_pts (p_sys example_demux)
      - i_first_pts (tk (p_sys example_demux) (nat (i_time_track (p_sys example_demux)))) \<noteq> 0"
    "vlc_stream_Seek example_env (s example_demux)
       (time_offset example_env (vlc_stream_Tell (s example_demux)) 0
         (i_current_pts (p_sys example_demux)
           - i_first_pts (tk (p_sys example_demux) (nat (i_time_track (p_sys example_demux))))))
       \<noteq> None"
    by (simp_all add: example_demux_def example_track_def example_env_def vlc_stream_Tell_def)
  show ?thesis
    using set_time_rejected [of 7 ?o example_env] set_time_rejected [of 7 ?z example_env]
      set_time_rejected [of 0 example_demux example_env] o z e
    by simp
qed

text \<open>
  C7 as stated fails: right after \<^verbatim>\<open>Open\<close> there is no time-source track, and
  \<^verbatim>\<open>DEMUX_SET_TIME\<close> with target 0 returns \<^verbatim>\<open>VLC_EGENERIC\<close>.
\<close>

theorem set_time_zero_counterexample:
  "fst (Control example_env (DEMUX_SET_TIME 0)
      (Open_demux \<lparr>s_data = [], s_pos = 0\<rparr> False True)) = VLC_EGENERIC \<and>
   VLC_EGENERIC \<noteq> VLC_SUCCESS"
  by (simp add: Control_def Open_demux_def VLC_SUCCESS_def VLC_EGENERIC_def)

subsection \<open>Seeking\<close>

text \<open>
  C8, as the code has it. Every successful \<^verbatim>\<open>DEMUX_SET_POSITION\<close>, and every
  successful \<^verbatim>\<open>DEMUX_SET_TIME\<close> at an elapsed time \<open>i_now\<close> that is not 0, resets the
  current time stamp to zero and the last SCR to unset (-1), and the tracks it
  leaves are the tracks before the call with the discontinuity flag set on every
  track that is seen, has a sink and is selected (\<^verbatim>\<open>NotifyDiscontinuity\<close>, called
  once). A successful \<^verbatim>\<open>DEMUX_SET_TIME\<close> at elapsed time 0 has the target 0 and
  changes nothing.
\<close>

theorem seek_resets_and_notifies:
  fixes d :: demux_t
  defines "sys \<equiv> p_sys d"
  defines "i_now \<equiv> i_current_pts sys - i_first_pts (tk sys (nat (i_time_track sys)))"
  shows "(Control env (DEMUX_SET_POSITION f) d = (VLC_SUCCESS, res, d') \<longrightarrow> seek_effect env d d') \<and>
         (Control env (DEMUX_SET_TIME i64) d = (VLC_SUCCESS, res, d') \<and> i_now \<noteq> 0 \<longrightarrow>
            seek_effect env d d') \<and>
         (Control env (DEMUX_SET_TIME i64) d = (VLC_SUCCESS, res, d') \<and> i_now = 0 \<longrightarrow>
            i64 = 0 \<and> d' = d)"
  by (auto simp add: Control_def Let_def sys_def i_now_def VLC_SUCCESS_def VLC_EGENERIC_def
      seek_effect_def NotifyDiscontinuity_marked split: option.splits if_splits)

text \<open>
  A seek to position 0 and a seek to the time 500 at elapsed time 2000, on the
  demuxer whose video track has a selected sink: both succeed, and the track's
  flags become the discontinuity flag. The set-time to 0 at elapsed time 0 leaves
  the demuxer as it is.
\<close>

theorem seek_resets_and_notifies_witness:
  "fst (Control example_env (DEMUX_SET_POSITION 0) example_demux) = VLC_SUCCESS \<and>
   seek_effect example_env example_demux
     (snd (snd (Control example_env (DEMUX_SET_POSITION 0) example_demux))) \<and>
   fst (Control example_env (DEMUX_SET_TIME 500) example_demux) = VLC_SUCCESS \<and>
   seek_effect example_env example_demux
     (snd (snd (Control example_env (DEMUX_SET_TIME 500) example_demux))) \<and>
   i_next_block_flags
     (tk (p_sys (snd (snd (Control example_env (DEMUX_SET_TIME 500) example_demux)))) 32)
     = BLOCK_FLAG_DISCONTINUITY \<and>
   snd (snd (Control example_env (DEMUX_SET_TIME 0)
      (example_demux\<lparr>p_sys := (p_sys example_demux)\<lparr>i_current_pts := 1000\<rparr>\<rparr>)))
     = example_demux\<lparr>p_sys := (p_sys example_demux)\<lparr>i_current_pts := 1000\<rparr>\<rparr>"
proof -
  let ?z = "example_demux\<lparr>p_sys := (p_sys example_demux)\<lparr>i_current_pts := 1000\<rparr>\<rparr>"
  let ?p = "Control example_env (DEMUX_SET_POSITION 0) example_demux"
  let ?t = "Control example_env (DEMUX_SET_TIME 500) example_demux"
  have p: "?p = (VLC_SUCCESS, No_result, snd (snd ?p))"
    by (simp add: Control_def example_demux_def example_env_def Let_def)
  have t: "?t = (VLC_SUCCESS, No_result, snd (snd ?t))"
    by (simp add: Control_def example_demux_def example_track_def example_env_def Let_def
        vlc_stream_Tell_def)
  have n: "i_current_pts (p_sys example_demux)
      - i_first_pts (tk (p_sys example_demux) (nat (i_time_track (p_sys example_demux)))) \<noteq> 0"
    by (simp add: example_demux_def example_track_def)
  have z: "Control example_env (DEMUX_SET_TIME 0) ?z = (VLC_SUCCESS, No_result, ?z)"
    "i_current_pts (p_sys ?z) - i_first_pts (tk (p_sys ?z) (nat (i_time_track (p_sys ?z)))) = 0"
    by (simp_all add: Control_def example_demux_def example_track_def)
  have m: "marked example_env (tk (p_sys example_demux) 32)"
    "i_next_block_flags (tk (p_sys example_demux) 32) = 0" "32 < PS_TK_COUNT example_env"
    by (simp_all add: example_demux_def example_track_def marked_def example_env_def)
  have s1: "seek_effect example_env example_demux (snd (snd ?p))"
    using seek_resets_and_notifies [of example_env 0 example_demux No_result "snd (snd ?p)"] p
    by simp
  have s2: "seek_effect example_env example_demux (snd (snd ?t))"
    using seek_resets_and_notifies [of example_env _ example_demux No_result "snd (snd ?t)" 500] t n
    by simp
  have s3: "snd (snd (Control example_env (DEMUX_SET_TIME 0) ?z)) = ?z"
    using seek_resets_and_notifies [of example_env _ ?z No_result ?z 0] z by simp
  from s2 m have "i_next_block_flags (tk (p_sys (snd (snd ?t))) 32) = BLOCK_FLAG_DISCONTINUITY"
    by (simp add: seek_effect_def discontinuity_marked_def)
  moreover have "fst ?p = VLC_SUCCESS" by (subst p) simp
  moreover have "fst ?t = VLC_SUCCESS" by (subst t) simp
  ultimately show ?thesis using s1 s2 s3 by simp
qed

text \<open>
  C8 as stated fails: at elapsed time 0 the set-time to 0 returns \<^verbatim>\<open>VLC_SUCCESS\<close>,
  and the current time stamp is still 1000, the last SCR still 0, and the selected
  video track has no discontinuity flag.
\<close>

theorem set_time_no_reset_counterexample:
  "Control example_env (DEMUX_SET_TIME 0)
      (example_demux\<lparr>p_sys := (p_sys example_demux)\<lparr>i_current_pts := 1000\<rparr>\<rparr>)
     = (VLC_SUCCESS, No_result,
        example_demux\<lparr>p_sys := (p_sys example_demux)\<lparr>i_current_pts := 1000\<rparr>\<rparr>) \<and>
   i_current_pts (p_sys (example_demux\<lparr>p_sys := (p_sys example_demux)\<lparr>i_current_pts := 1000\<rparr>\<rparr>))
     = 1000 \<and>
   i_last_scr (p_sys (example_demux\<lparr>p_sys := (p_sys example_demux)\<lparr>i_current_pts := 1000\<rparr>\<rparr>))
     = 0 \<and>
   marked example_env
     (tk (p_sys (example_demux\<lparr>p_sys := (p_sys example_demux)\<lparr>i_current_pts := 1000\<rparr>\<rparr>)) 32) \<and>
   i_next_block_flags
     (tk (p_sys (example_demux\<lparr>p_sys := (p_sys example_demux)\<lparr>i_current_pts := 1000\<rparr>\<rparr>)) 32)
     = 0"
  by (simp add: Control_def example_demux_def example_track_def marked_def example_env_def
      VLC_SUCCESS_def)

subsection \<open>A packet shorter than four bytes\<close>

text \<open>
  C10. When \<^verbatim>\<open>Demux\<close> gets as far as reading a packet and the packet has fewer than
  four bytes, it returns \<^verbatim>\<open>VLC_DEMUXER_EGENERIC\<close> and the demuxer is the one the
  packet was read from, with the stream after the packet: the packet is not
  classified and not dispatched. Compared with the demuxer at the call, nothing
  was sent to the sink, the map and the clock (SCR, last SCR, mux rate, current
  time stamp) are the same, and so is every track, but for the first and last
  time stamps that a length estimation writes when it runs in this call before
  the read (it runs when the length is unset, the stream seekable and the time
  stamps trusted); without it the tracks are the same.
\<close>

theorem short_packet_rejected:
  assumes "Demux_sync env d = Inr d2"
    and "ps_pkt_read (ps_pkt_size env) (s d2) = (Some p_pkt, st')"
    and "length (p_buffer p_pkt) < 4"
  shows "Demux env d = (VLC_DEMUXER_EGENERIC, d2\<lparr>s := st'\<rparr>) \<and>
         probe_frame d (d2\<lparr>s := st'\<rparr>) \<and>
         (\<not> (i_length (p_sys d) = - 1 \<and> b_seekable (p_sys d) \<and> ps_trust_timestamps env) \<longrightarrow>
            tk (p_sys (d2\<lparr>s := st'\<rparr>)) = tk (p_sys d))"
proof -
  from assms have "Demux env d = (VLC_DEMUXER_EGENERIC, d2\<lparr>s := st'\<rparr>)"
    by (simp add: Demux_def)
  moreover from assms(1) have "probe_frame d (d2\<lparr>s := st'\<rparr>)"
    by (intro probe_frame_stream Demux_sync_frame)
  moreover have "tk (p_sys (d2\<lparr>s := st'\<rparr>)) = tk (p_sys d)"
    if "\<not> (i_length (p_sys d) = - 1 \<and> b_seekable (p_sys d) \<and> ps_trust_timestamps env)"
    using Demux_sync_tracks [OF assms(1) that] by simp
  ultimately show ?thesis by blast
qed

text \<open>
  With a \<^verbatim>\<open>ps_pkt_size\<close> that declares two bytes for the end code, the packet read
  has two bytes and \<^verbatim>\<open>Demux\<close> returns the error with the stream two bytes on.
\<close>

theorem short_packet_rejected_witness:
  "Demux_sync short_env (example_demux\<lparr>s := \<lparr>s_data = [0, 0, 1, 0xB9], s_pos = 0\<rparr>\<rparr>)
     = Inr (example_demux\<lparr>s := \<lparr>s_data = [0, 0, 1, 0xB9], s_pos = 0\<rparr>\<rparr>) \<and>
   ps_pkt_read (ps_pkt_size short_env) \<lparr>s_data = [0, 0, 1, 0xB9], s_pos = 0\<rparr>
     = (Some \<lparr>p_buffer = [0, 0], i_pts = VLC_TS_INVALID, i_flags = 0\<rparr>,
        \<lparr>s_data = [0, 0, 1, 0xB9], s_pos = 2\<rparr>) \<and>
   Demux short_env (example_demux\<lparr>s := \<lparr>s_data = [0, 0, 1, 0xB9], s_pos = 0\<rparr>\<rparr>)
     = (VLC_DEMUXER_EGENERIC, example_demux\<lparr>s := \<lparr>s_data = [0, 0, 1, 0xB9], s_pos = 2\<rparr>\<rparr>)"
proof -
  let ?d = "example_demux\<lparr>s := \<lparr>s_data = [0, 0, 1, 0xB9], s_pos = 0\<rparr>\<rparr>"
  have a: "Demux_sync short_env ?d = Inr ?d"
    by (simp add: Demux_sync_def example_demux_def ps_pkt_resynch_def vlc_stream_Peek_def
        start_code_at_def PS_STREAM_ID_END_STREAM_def)
  have b: "ps_pkt_read (ps_pkt_size short_env) (s ?d)
     = (Some \<lparr>p_buffer = [0, 0], i_pts = VLC_TS_INVALID, i_flags = 0\<rparr>,
        \<lparr>s_data = [0, 0, 1, 0xB9], s_pos = 2\<rparr>)"
    by (simp add: ps_pkt_read_def short_env_def example_env_def vlc_stream_Peek_def
        vlc_stream_Block_def PS_STREAM_ID_PACK_HEADER_def)
  have c: "length (p_buffer \<lparr>p_buffer = [0, 0], i_pts = VLC_TS_INVALID, i_flags = 0\<rparr>) < 4"
    by simp
  from short_packet_rejected [OF a b c] a b show ?thesis by simp
qed

subsection \<open>The clock forced from a time stamp\<close>

text \<open>
  C1, as the code has it. In the elementary stream case of \<^verbatim>\<open>Demux\<close>, for a packet
  whose track has a sink and whose PES header parses: after what the pending SCR
  did (\<open>d\<close> is the demuxer then), the sink gets the time stamp of the packet as
  the clock exactly when the track is an audio track, the time stamp is positive,
  and either the track was not created on this call and no pack header has been
  seen, or the SCR is disabled, be it before or by the check of this very time
  stamp against the SCR. Then the packet is sent. A video track never forces the
  clock, and a track created on this call does so only when the SCR is disabled.
\<close>

theorem forced_pcr_pushed:
  fixes d0 :: demux_t
  assumes "Demux_es_track env d0 p_pkt = (d1, k, b_new)"
  defines "d \<equiv> Demux_es_scr d1 k"
  defines "t \<equiv> tk (p_sys d) k"
  assumes "es t = Some e" and "ps_pkt_parse_pes env p_pkt (i_skip t) = Some pkt"
  defines "scr_disabled \<equiv> b_bad_scr (p_sys d) \<or>
     ((i_cat (fmt t) = AUDIO_ES \<or> i_cat (fmt t) = VIDEO_ES) \<and> 0 < i_scr (p_sys d) \<and>
      0 < i_pts pkt \<and> i_pts pkt + CLOCK_FREQ div 4 < i_scr (p_sys d))"
  shows "\<exists>sent. out (Demux_es env d0 p_pkt) =
           out d @
           (if ((\<not> b_new \<and> \<not> b_have_pack (p_sys d)) \<or> scr_disabled) \<and>
               i_cat (fmt t) = AUDIO_ES \<and> VLC_TS_INVALID < i_pts pkt
            then [ES_OUT_SET_PCR PCR_forced (i_pts pkt)] else []) @
           [ES_OUT_SEND e sent]"
proof -
  have tk: "tk (p_sys d) = tk (p_sys d1)"
    by (simp add: d_def Demux_es_scr_def Let_def)
  from Demux_es_track_seen [OF assms(1)] have seen: "b_seen t"
    by (simp add: t_def tk)
  have "Demux_es env d0 p_pkt = Demux_es_pes env d k b_new p_pkt"
    using assms(1) by (simp add: Demux_es_def d_def)
  with seen assms(4,5) show ?thesis
    unfolding scr_disabled_def t_def
    by (auto simp add: Demux_es_pes_def Let_def split: prod.splits)
qed

text \<open>
  The second audio packet of a stream without pack headers: the clock is forced
  to its time stamp 90000, then the packet is sent.
\<close>

theorem forced_pcr_pushed_witness:
  "Demux_es_track example_env audio_demux audio_pkt = (audio_demux, 0, False) \<and>
   es (tk (p_sys (Demux_es_scr audio_demux 0)) 0) = Some 0 \<and>
   ps_pkt_parse_pes example_env audio_pkt (i_skip (tk (p_sys (Demux_es_scr audio_demux 0)) 0))
     = Some (audio_pkt\<lparr>i_pts := 90000\<rparr>) \<and>
   (\<exists>sent. out (Demux_es example_env audio_demux audio_pkt)
      = [ES_OUT_ADD 0 (Some 0), ES_OUT_SET_PCR PCR_forced 90000, ES_OUT_SEND 0 sent])"
proof -
  have a: "Demux_es_track example_env audio_demux audio_pkt = (audio_demux, 0, False)"
    by (simp add: Demux_es_track_def aob_mlp_heuristic_def track_first_sight_def audio_demux_def
        audio_pkt_def example_env_def Let_def)
  have b: "es (tk (p_sys (Demux_es_scr audio_demux 0)) 0) = Some 0"
    by (simp add: Demux_es_scr_def audio_demux_def Let_def)
  have c: "ps_pkt_parse_pes example_env audio_pkt (i_skip (tk (p_sys (Demux_es_scr audio_demux 0)) 0))
     = Some (audio_pkt\<lparr>i_pts := 90000\<rparr>)"
    by (simp add: example_env_def audio_pkt_def)
  have d: "out (Demux_es_scr audio_demux 0) = [ES_OUT_ADD 0 (Some 0)]"
    "\<not> b_have_pack (p_sys (Demux_es_scr audio_demux 0))"
    "i_cat (fmt (tk (p_sys (Demux_es_scr audio_demux 0)) 0)) = AUDIO_ES"
    by (simp_all add: Demux_es_scr_def audio_demux_def Let_def)
  from forced_pcr_pushed [OF a b c] a b c d show ?thesis
    by (simp add: VLC_TS_INVALID_def)
qed

text \<open>
  C1 as stated fails twice. After a pack header, the first audio packet creates
  its track and carries the positive time stamp 90000: the sink gets the SCR as
  the clock, and the time stamp is not pushed. Without any pack header, two video
  packets with positive time stamps are sent and the clock is never set.
\<close>

theorem forced_pcr_counterexample:
  "out (engine_run example_env [Call_Demux, Call_Demux] (Open_demux pack_audio_stream False False))
     = [ES_OUT_ADD 0 (Some 0), ES_OUT_SET_PCR PCR_from_SCR 1,
        ES_OUT_SEND 0 \<lparr>p_buffer = [0, 0, 1, 0xC0, 0, 3, 0x80, 0x80, 0x5A], i_pts = 90000, i_flags = 0\<rparr>] \<and>
   out (engine_run example_env [Call_Demux, Call_Demux] (Open_demux video_stream False False))
     = [ES_OUT_ADD 32 (Some 0),
        ES_OUT_SEND 0 \<lparr>p_buffer = [0, 0, 1, 0xE0, 0, 3, 0x80, 0x80, 0x5A], i_pts = 90000, i_flags = 0\<rparr>,
        ES_OUT_SEND 0 \<lparr>p_buffer = [0, 0, 1, 0xE0, 0, 3, 0x80, 0x80, 0x5B], i_pts = 91000, i_flags = 0\<rparr>]"
  by (simp add: eval_defs pack_audio_stream_def video_stream_def)

subsection \<open>The length estimation\<close>

text \<open>
  C6. When the time stamps are trusted, the length is unset (-1) and \<^verbatim>\<open>FindLength\<close>
  returns true, then, over the tracks below \<^verbatim>\<open>PS_TK_COUNT\<close> as the probing left them:
  if some track has a positive last time stamp greater than its first, the
  length is the largest span (last less first) of these tracks and
  \<^verbatim>\<open>i_time_track\<close> is the index of one of them whose span is the length; if none
  has, the length is 0 and \<^verbatim>\<open>i_time_track\<close> is as before.
\<close>

theorem FindLength_longest_span:
  assumes "ps_trust_timestamps env" and "i_length (p_sys d) = - 1"
    and "FindLength env d = (True, d')"
  defines "tks \<equiv> tk (p_sys d')"
  defines "Q \<equiv> {i. i < PS_TK_COUNT env \<and> has_span (tks i)}"
  shows "(Q = {} \<longrightarrow> i_length (p_sys d') = 0 \<and> i_time_track (p_sys d') = i_time_track (p_sys d)) \<and>
         (Q \<noteq> {} \<longrightarrow>
            i_length (p_sys d') = Max ((\<lambda>i. track_span (tks i)) ` Q) \<and>
            (\<exists>j\<in>Q. i_time_track (p_sys d') = int j \<and> track_span (tks j) = i_length (p_sys d')))"
proof -
  obtain sys2 where s2: "p_sys d' = longest_track env sys2" "i_length sys2 = 0"
      "i_time_track sys2 = i_time_track (p_sys d)"
    using FindLength_first [OF assms(1-3)] by blast
  let ?n = "PS_TK_COUNT env"
  note l = longest_track_fold [where sys = sys2 and n = "?n", folded longest_track_def [of env sys2], folded s2(1)]
  from l have tk: "tks = tk sys2" by (simp add: tks_def)
  have Q: "Q = {i. i < ?n \<and> has_span (tk sys2 i)}" by (simp add: Q_def tk)
  have fin: "finite Q" by (simp add: Q_def)
  have pos: "0 < track_span (tk sys2 i)" if "i \<in> Q" for i
    using that by (auto simp add: Q has_span_def track_span_def)
  have ub: "track_span (tk sys2 i) \<le> i_length (p_sys d')" if "i \<in> Q" for i
    using l that by (auto simp add: Q)
  show ?thesis
  proof (cases "Q = {}")
    case True
    with l s2 show ?thesis by (auto simp add: Q)
  next
    case False
    then obtain i where i: "i \<in> Q" by blast
    from pos [OF i] ub [OF i] have "0 < i_length (p_sys d')" by simp
    with l s2 obtain j where j: "j \<in> Q" "i_time_track (p_sys d') = int j"
        "i_length (p_sys d') = track_span (tk sys2 j)"
      by (auto simp add: Q)
    have "Max ((\<lambda>i. track_span (tks i)) ` Q) = i_length (p_sys d')"
    proof (rule Max_eqI)
      show "finite ((\<lambda>i. track_span (tks i)) ` Q)" using fin by simp
      show "y \<le> i_length (p_sys d')" if "y \<in> (\<lambda>i. track_span (tks i)) ` Q" for y
        using that ub by (auto simp add: tk)
      show "i_length (p_sys d') \<in> (\<lambda>i. track_span (tks i)) ` Q"
        using j by (auto simp add: tk)
    qed
    with False j show ?thesis by (auto simp add: tk)
  qed
qed

text \<open>
  On the stream of four packets, right after \<^verbatim>\<open>Open\<close>: the probing finds the video
  track from 1000 to 5000 and the audio track from 2000 to 3000, so spans of 4000
  and 1000; the length is 4000 and the time source is the video track (index 32).
\<close>

theorem FindLength_longest_span_witness:
  "ps_trust_timestamps example_env \<and>
   i_length (p_sys (Open_demux av_stream False True)) = - 1 \<and>
   fst (FindLength example_env (Open_demux av_stream False True)) \<and>
   i_first_pts (tk (p_sys (snd (FindLength example_env (Open_demux av_stream False True)))) 32) = 1000 \<and>
   i_last_pts (tk (p_sys (snd (FindLength example_env (Open_demux av_stream False True)))) 32) = 5000 \<and>
   i_first_pts (tk (p_sys (snd (FindLength example_env (Open_demux av_stream False True)))) 0) = 2000 \<and>
   i_last_pts (tk (p_sys (snd (FindLength example_env (Open_demux av_stream False True)))) 0) = 3000 \<and>
   i_length (p_sys (snd (FindLength example_env (Open_demux av_stream False True)))) = 4000 \<and>
   i_time_track (p_sys (snd (FindLength example_env (Open_demux av_stream False True)))) = 32 \<and>
   i_length (p_sys (snd (FindLength example_env (Open_demux av_stream False True)))) =
     Max ((\<lambda>i. track_span
               (tk (p_sys (snd (FindLength example_env (Open_demux av_stream False True)))) i)) `
          {i. i < PS_TK_COUNT example_env \<and>
              has_span (tk (p_sys (snd (FindLength example_env (Open_demux av_stream False True)))) i)})"
proof -
  let ?d = "Open_demux av_stream False True"
  let ?d' = "snd (FindLength example_env ?d)"
  have h1: "ps_trust_timestamps example_env" by (simp add: example_env_def)
  have h2: "i_length (p_sys ?d) = - 1" by (simp add: Open_demux_def)
  have ok: "fst (FindLength example_env ?d)" by code_simp
  then have h3: "FindLength example_env ?d = (True, ?d')"
    by (cases "FindLength example_env ?d") simp
  have v: "i_first_pts (tk (p_sys ?d') 32) = 1000" "i_last_pts (tk (p_sys ?d') 32) = 5000"
    "i_first_pts (tk (p_sys ?d') 0) = 2000" "i_last_pts (tk (p_sys ?d') 0) = 3000"
    "i_length (p_sys ?d') = 4000" "i_time_track (p_sys ?d') = 32"
    by code_simp+
  have "32 < PS_TK_COUNT example_env" by (simp add: example_env_def)
  moreover have "has_span (tk (p_sys ?d') 32)" using v by (simp add: has_span_def)
  ultimately have q: "{i. i < PS_TK_COUNT example_env \<and> has_span (tk (p_sys ?d') i)} \<noteq> {}"
    by blast
  from FindLength_longest_span [OF h1 h2 h3] q h1 h2 ok v show ?thesis by simp
qed

subsection \<open>Loss of synchronisation\<close>

text \<open>
  C3. Let the resynchroniser return \<open>i_ret\<close> on the demuxer \<open>d\<close>.
  \<^item> When it returns 0 and the lost-sync flag is clear, \<^verbatim>\<open>Demux\<close> returns success
    with the flag set, the stream after the skipped bytes, and the tracks of \<open>d\<close>
    with the discontinuity flag set on every track that is seen, has a sink and
    is selected (\<^verbatim>\<open>NotifyDiscontinuity\<close>, called once); nothing else changes.
  \<^item> When it returns 0 and the flag is set, \<^verbatim>\<open>Demux\<close> returns success and only the
    stream has changed: a repeated loss marks nothing.
  \<^item> When it returns 1, the part of \<^verbatim>\<open>Demux\<close> that regains synchronisation (up to
    the read of the packet, or to the return after a failed length estimation)
    leaves the flags of every track as they are; and when the helpers of
    \<^verbatim>\<open>ps.h\<close> keep the flags, the whole call keeps or clears the flags of every
    track, so that regaining synchronisation marks nothing.
  \<^item> \<^verbatim>\<open>Demux2\<close>, which sets and clears the lost-sync flag too, never marks a track
    and never changes a sink.
  \<^item> In every run from \<^verbatim>\<open>Open\<close>, as long as \<^verbatim>\<open>FindLength\<close> can still call \<^verbatim>\<open>Demux2\<close>
    (length unset, stream seekable, time stamps trusted), no track has a sink: a
    loss of synchronisation met by \<^verbatim>\<open>Demux2\<close> has no track to mark.
\<close>

theorem lost_sync_discontinuity:
  assumes "ps_pkt_resynch (s d) (b_cdxa (p_sys d)) (b_have_pack (p_sys d)) = (i_ret, st)"
  shows
    "(i_ret = 0 \<and> \<not> b_lost_sync (p_sys d) \<longrightarrow>
        (\<exists>tks. Demux env d =
           (VLC_DEMUXER_SUCCESS, d\<lparr>s := st, p_sys := (p_sys d)\<lparr>tk := tks, b_lost_sync := True\<rparr>\<rparr>) \<and>
           discontinuity_marked env (tk (p_sys d)) tks)) \<and>
     (i_ret = 0 \<and> b_lost_sync (p_sys d) \<longrightarrow> Demux env d = (VLC_DEMUXER_SUCCESS, d\<lparr>s := st\<rparr>)) \<and>
     (0 < i_ret \<longrightarrow>
        (\<forall>d2. Demux_sync env d = Inr d2 \<or> Demux_sync env d = Inl (VLC_DEMUXER_EGENERIC, d2) \<longrightarrow>
           (\<forall>i. i_next_block_flags (tk (p_sys d2) i) = i_next_block_flags (tk (p_sys d) i)))) \<and>
     (0 < i_ret \<and> helpers_keep_flags env \<longrightarrow> flags_kept d (snd (Demux env d))) \<and>
     (\<forall>b_end r d'. Demux2 env d b_end = (r, d') \<longrightarrow>
        (\<forall>i. i_next_block_flags (tk (p_sys d') i) = i_next_block_flags (tk (p_sys d) i) \<and>
             es (tk (p_sys d') i) = es (tk (p_sys d) i))) \<and>
     (\<forall>cs st0 cdxa seekable.
        d = engine_run env cs (Open_demux st0 cdxa seekable) \<and> i_length (p_sys d) = - 1 \<and>
        b_seekable (p_sys d) \<and> ps_trust_timestamps env \<longrightarrow>
        (\<forall>i. es (tk (p_sys d) i) = None))"
proof (intro conjI impI allI)
  assume a: "i_ret = 0 \<and> \<not> b_lost_sync (p_sys d)"
  with assms have "Demux env d =
      (VLC_DEMUXER_SUCCESS,
       d\<lparr>s := st, p_sys := (p_sys d)\<lparr>tk := NotifyDiscontinuity env (tk (p_sys d)), b_lost_sync := True\<rparr>\<rparr>)"
    by (simp add: Demux_def Demux_sync_def)
  with NotifyDiscontinuity_marked [of env "tk (p_sys d)"]
  show "\<exists>tks. Demux env d =
           (VLC_DEMUXER_SUCCESS, d\<lparr>s := st, p_sys := (p_sys d)\<lparr>tk := tks, b_lost_sync := True\<rparr>\<rparr>) \<and>
           discontinuity_marked env (tk (p_sys d)) tks"
    by blast
next
  assume a: "i_ret = 0 \<and> b_lost_sync (p_sys d)"
  then have "(p_sys d)\<lparr>tk := tk (p_sys d), b_lost_sync := True\<rparr> = p_sys d"
    by (intro demux_sys_t.equality) simp_all
  with a assms show "Demux env d = (VLC_DEMUXER_SUCCESS, d\<lparr>s := st\<rparr>)"
    by (simp add: Demux_def Demux_sync_def)
next
  fix d2 i
  assume "0 < i_ret" "Demux_sync env d = Inr d2 \<or> Demux_sync env d = Inl (VLC_DEMUXER_EGENERIC, d2)"
  from Demux_sync_flags [OF this(2) assms this(1)]
  show "i_next_block_flags (tk (p_sys d2) i) = i_next_block_flags (tk (p_sys d) i)"
    by (simp add: probe_frame_def)
next
  assume "0 < i_ret \<and> helpers_keep_flags env"
  then show "flags_kept d (snd (Demux env d))"
    using Demux_regain_flags [OF _ assms] by simp
next
  fix b_end r d' i
  assume "Demux2 env d b_end = (r, d')"
  from Demux2_frame [OF this]
  show "i_next_block_flags (tk (p_sys d') i) = i_next_block_flags (tk (p_sys d) i)"
    "es (tk (p_sys d') i) = es (tk (p_sys d) i)"
    by (simp_all add: probe_frame_def)
next
  fix cs st0 cdxa seekable i
  assume a: "d = engine_run env cs (Open_demux st0 cdxa seekable) \<and> i_length (p_sys d) = - 1 \<and>
        b_seekable (p_sys d) \<and> ps_trust_timestamps env"
  then have "probes_before_sinks env d"
    by (simp add: engine_run_probes Open_probes)
  with a show "es (tk (p_sys d) i) = None"
    by (auto simp add: probes_before_sinks_def past_probe_def)
qed

text \<open>
  On eight bytes of garbage the resynchroniser skips five bytes and returns 0.
  With the lost-sync flag clear, \<^verbatim>\<open>Demux\<close> succeeds, sets the flag and the flags of
  the selected video track become the discontinuity flag; with the flag set,
  only the stream moves. Right after \<^verbatim>\<open>Open\<close> on a seekable stream no track has a
  sink. On a stream that starts with a video packet, with the lost-sync flag set
  and the video track marked, the resynchroniser returns 1 and the call sends
  the packet and clears the mark.
\<close>

theorem lost_sync_discontinuity_witness:
  "ps_pkt_resynch garbage_stream False True = (0, garbage_stream\<lparr>s_pos := 5\<rparr>) \<and>
   \<not> b_lost_sync (p_sys (example_demux\<lparr>s := garbage_stream\<rparr>)) \<and>
   fst (Demux example_env (example_demux\<lparr>s := garbage_stream\<rparr>)) = VLC_DEMUXER_SUCCESS \<and>
   i_next_block_flags (tk (p_sys (snd (Demux example_env (example_demux\<lparr>s := garbage_stream\<rparr>)))) 32)
     = BLOCK_FLAG_DISCONTINUITY \<and>
   b_lost_sync (p_sys (snd (Demux example_env (example_demux\<lparr>s := garbage_stream\<rparr>)))) \<and>
   Demux example_env
     (example_demux\<lparr>s := garbage_stream, p_sys := (p_sys example_demux)\<lparr>b_lost_sync := True\<rparr>\<rparr>)
     = (VLC_DEMUXER_SUCCESS,
        example_demux\<lparr>s := garbage_stream\<lparr>s_pos := 5\<rparr>,
                      p_sys := (p_sys example_demux)\<lparr>b_lost_sync := True\<rparr>\<rparr>) \<and>
   es (tk (p_sys (engine_run example_env [] (Open_demux garbage_stream False True))) 32) = None \<and>
   ps_pkt_resynch video_stream False True = (1, video_stream) \<and>
   flags_kept marked_demux (snd (Demux example_env marked_demux)) \<and>
   i_next_block_flags (tk (p_sys (snd (Demux example_env marked_demux))) 32) = 0"
proof -
  let ?d = "example_demux\<lparr>s := garbage_stream\<rparr>"
  let ?l = "example_demux\<lparr>s := garbage_stream, p_sys := (p_sys example_demux)\<lparr>b_lost_sync := True\<rparr>\<rparr>"
  let ?o = "engine_run example_env [] (Open_demux garbage_stream False True)"
  have r: "ps_pkt_resynch garbage_stream False True = (0, garbage_stream\<lparr>s_pos := 5\<rparr>)"
    by (simp add: ps_pkt_resynch_def garbage_stream_def vlc_stream_Peek_def vlc_stream_Read_def
        start_code_at_def resynch_loop.simps)
  have rd: "ps_pkt_resynch (s ?d) (b_cdxa (p_sys ?d)) (b_have_pack (p_sys ?d))
      = (0, garbage_stream\<lparr>s_pos := 5\<rparr>)"
    and rl: "ps_pkt_resynch (s ?l) (b_cdxa (p_sys ?l)) (b_have_pack (p_sys ?l))
      = (0, garbage_stream\<lparr>s_pos := 5\<rparr>)"
    using r by (simp_all add: example_demux_def)
  have n: "\<not> b_lost_sync (p_sys ?d)" "b_lost_sync (p_sys ?l)"
    by (simp_all add: example_demux_def)
  have m: "marked example_env (tk (p_sys ?d) 32)" "i_next_block_flags (tk (p_sys ?d) 32) = 0"
    "32 < PS_TK_COUNT example_env"
    by (simp_all add: example_demux_def example_track_def marked_def example_env_def)
  obtain ir so where ro: "ps_pkt_resynch (s ?o) (b_cdxa (p_sys ?o)) (b_have_pack (p_sys ?o)) = (ir, so)"
    by (cases "ps_pkt_resynch (s ?o) (b_cdxa (p_sys ?o)) (b_have_pack (p_sys ?o))")
  have o: "i_length (p_sys ?o) = - 1" "b_seekable (p_sys ?o)" "ps_trust_timestamps example_env"
    by (simp_all add: engine_run_def Open_demux_def example_env_def)
  from lost_sync_discontinuity [OF rd, of example_env] n
  obtain tks where d1: "Demux example_env ?d =
      (VLC_DEMUXER_SUCCESS,
       ?d\<lparr>s := garbage_stream\<lparr>s_pos := 5\<rparr>, p_sys := (p_sys ?d)\<lparr>tk := tks, b_lost_sync := True\<rparr>\<rparr>)"
    and mk: "discontinuity_marked example_env (tk (p_sys ?d)) tks"
    by blast
  from mk m have f: "i_next_block_flags (tks 32) = BLOCK_FLAG_DISCONTINUITY"
    by (simp add: discontinuity_marked_def)
  from lost_sync_discontinuity [OF rl, of example_env] n
  have d2: "Demux example_env ?l = (VLC_DEMUXER_SUCCESS, ?l\<lparr>s := garbage_stream\<lparr>s_pos := 5\<rparr>\<rparr>)"
    by blast
  from lost_sync_discontinuity [OF ro, of example_env] o
  have d3: "es (tk (p_sys ?o) 32) = None"
    by blast
  have rv: "ps_pkt_resynch video_stream False True = (1, video_stream)"
    by (simp add: ps_pkt_resynch_def video_stream_def vlc_stream_Peek_def start_code_at_def
        PS_STREAM_ID_END_STREAM_def)
  then have rm: "ps_pkt_resynch (s marked_demux) (b_cdxa (p_sys marked_demux))
      (b_have_pack (p_sys marked_demux)) = (1, video_stream)"
    by (simp add: marked_demux_def example_demux_def)
  have hk: "helpers_keep_flags example_env"
    by (simp add: helpers_keep_flags_def example_env_def)
  from lost_sync_discontinuity [OF rm, of example_env] hk
  have d4: "flags_kept marked_demux (snd (Demux example_env marked_demux))"
    by simp
  have d5: "i_next_block_flags (tk (p_sys (snd (Demux example_env marked_demux))) 32) = 0"
    by (simp add: eval_defs marked_demux_def example_demux_def video_stream_def example_track_def
        BLOCK_FLAG_DISCONTINUITY_def)
  from r n d1 f d2 d3 rv d4 d5 show ?thesis by simp
qed

subsection \<open>The SCR disabled for good\<close>

text \<open>
  C2. In the elementary stream case, when the SCR is pending (not negative) and
  not yet disabled, and the track of the packet is an audio or video track with a
  known first time stamp that exceeds the SCR by more than \<^verbatim>\<open>CLOCK_FREQ\<close>: the
  flag \<^verbatim>\<open>b_bad_scr\<close> is set and the SCR is not pushed; and through the rest of this
  call and every later call of \<^verbatim>\<open>Demux\<close> and \<^verbatim>\<open>Control\<close>, in any order and with any
  input, the flag stays set and the sink gets no further clock from the SCR.
\<close>

theorem scr_disabled_for_good:
  fixes d :: demux_t and k :: nat
  defines "sys \<equiv> p_sys d"
  defines "t \<equiv> tk (p_sys d) k"
  assumes "0 \<le> i_scr sys" and "\<not> b_bad_scr sys"
    and "i_cat (fmt t) = AUDIO_ES \<or> i_cat (fmt t) = VIDEO_ES"
    and "VLC_TS_INVALID < i_first_pts t" and "CLOCK_FREQ < i_first_pts t - i_scr sys"
  shows "b_bad_scr (p_sys (Demux_es_scr d k)) \<and> out (Demux_es_scr d k) = out d \<and>
         (\<forall>env b_new p_pkt cs.
            b_bad_scr (p_sys (engine_run env cs (Demux_es_pes env (Demux_es_scr d k) k b_new p_pkt))) \<and>
            filter is_scr_push
              (out (engine_run env cs (Demux_es_pes env (Demux_es_scr d k) k b_new p_pkt)))
              = filter is_scr_push (out d))"
proof -
  from assms have a: "b_bad_scr (p_sys (Demux_es_scr d k))" "out (Demux_es_scr d k) = out d"
    by (simp_all add: Demux_es_scr_def Let_def)
  have "scr_off (Demux_es_scr d k) (engine_run env cs (Demux_es_pes env (Demux_es_scr d k) k b_new p_pkt))"
    for env b_new p_pkt cs
  proof -
    have 1: "scr_off (Demux_es_scr d k) (Demux_es_pes env (Demux_es_scr d k) k b_new p_pkt)"
      using a(1) by (rule Demux_es_pes_scr_off)
    then have "b_bad_scr (p_sys (Demux_es_pes env (Demux_es_scr d k) k b_new p_pkt))"
      by (simp add: scr_off_def)
    from scr_off_trans [OF 1 engine_run_scr_off [OF this]] show ?thesis .
  qed
  with a show ?thesis by (simp add: scr_off_def)
qed

text \<open>
  With the SCR 0 pending and a video track that starts at three seconds, the flag
  is set, and it is still set after the rest of the call and three more calls.
\<close>

theorem scr_disabled_for_good_witness:
  "0 \<le> i_scr (p_sys late_demux) \<and> \<not> b_bad_scr (p_sys late_demux) \<and>
   i_cat (fmt (tk (p_sys late_demux) 32)) = VIDEO_ES \<and>
   VLC_TS_INVALID < i_first_pts (tk (p_sys late_demux) 32) \<and>
   CLOCK_FREQ < i_first_pts (tk (p_sys late_demux) 32) - i_scr (p_sys late_demux) \<and>
   b_bad_scr (p_sys (Demux_es_scr late_demux 32)) \<and>
   out (Demux_es_scr late_demux 32) = out late_demux \<and>
   b_bad_scr (p_sys (engine_run example_env [Call_Demux, Call_Control (DEMUX_SET_POSITION 0), Call_Demux]
      (Demux_es_pes example_env (Demux_es_scr late_demux 32) 32 False audio_pkt))) \<and>
   filter is_scr_push
     (out (engine_run example_env [Call_Demux, Call_Control (DEMUX_SET_POSITION 0), Call_Demux]
        (Demux_es_pes example_env (Demux_es_scr late_demux 32) 32 False audio_pkt)))
     = filter is_scr_push (out late_demux)"
proof -
  have h: "0 \<le> i_scr (p_sys late_demux)" "\<not> b_bad_scr (p_sys late_demux)"
    "i_cat (fmt (tk (p_sys late_demux) 32)) = AUDIO_ES \<or> i_cat (fmt (tk (p_sys late_demux) 32)) = VIDEO_ES"
    "VLC_TS_INVALID < i_first_pts (tk (p_sys late_demux) 32)"
    "CLOCK_FREQ < i_first_pts (tk (p_sys late_demux) 32) - i_scr (p_sys late_demux)"
    "i_cat (fmt (tk (p_sys late_demux) 32)) = VIDEO_ES"
    by (simp_all add: late_demux_def example_demux_def example_track_def VLC_TS_INVALID_def
        CLOCK_FREQ_def)
  from scr_disabled_for_good [OF h(1-5)] h show ?thesis by simp
qed

subsection \<open>A sink is created once\<close>




end
